theory Spec2Isabelle
  imports Main "HOL-Library.Sublist"
begin

section \<open>The desired-state document\<close>

text \<open>
  The import script \<^verbatim>\<open>complete_data_import.py\<close> reads a JSON document with the top-level
  key \<^verbatim>\<open>domains\<close>. Keys the script reads with \<^verbatim>\<open>d['k']\<close> are fields; keys it reads with
  \<^verbatim>\<open>d.get('k', default)\<close> are optional fields (\<open>None\<close> when the key is absent) or, for the
  two lists, a list that is empty when the key is absent. Strings are lists of characters.
\<close>

record characteristics =
  ch_periodicity :: string
  ch_source :: string
  ch_scale :: string

record indicator_json =
  ij_name :: string
  ij_id :: "int option"
  ij_categorization :: "string option"
  ij_characteristics :: characteristics

record subdomain_json =
  sj_name :: string
  sj_indicators :: "indicator_json list"

record domain_json =
  dj_name :: string
  dj_DomainColor :: "string option"
  dj_DomainImage :: "string option"
  dj_subdomains :: "subdomain_json list"

text \<open>
  What \<^verbatim>\<open>open\<close> and \<^verbatim>\<open>json.load\<close> give: the file is missing or is not
  JSON, the document has no key \<^verbatim>\<open>domains\<close>, or the list of domains.
\<close>

datatype domains_file = Unreadable | No_domains_key | Domains_data "domain_json list"

section \<open>Payloads and live records\<close>

record domain_data =
  dd_name :: string
  dd_color :: string
  dd_image :: string
  dd_subdomains :: "string list"

record indicator_data =
  id_name :: string
  id_periodicity :: string
  id_favourites :: int
  id_governance :: bool
  id_description :: string
  id_font :: string
  id_scale :: string

record resource_data =
  rd_wrapper_id :: string
  rd_name :: string
  rd_type :: string

text \<open>
  Live records are the JSON objects the services answer with; the script reads them with
  \<^verbatim>\<open>.get\<close>, so \<^verbatim>\<open>id\<close> and \<^verbatim>\<open>name\<close> may be absent (\<open>None\<close>). A missing
  \<^verbatim>\<open>resources\<close> key reads as the empty list.
\<close>

record domain_record =
  dom_id :: "string option"
  dom_name :: "string option"

record indicator_record =
  ind_id :: "string option"
  ind_name :: "string option"
  ind_domain :: "string option"
  ind_resources :: "string list"

record resource_record =
  res_id :: "string option"

section \<open>Strings\<close>

text \<open>
  \<^verbatim>\<open>str.lower()\<close> on the ASCII letters; \<^verbatim>\<open>needle in s\<close> is \<^const>\<open>sublist\<close> and
  \<^verbatim>\<open>s.endswith(t)\<close> is \<^const>\<open>suffix\<close>. \<open>fmt\<close> is the f-string rendering of a value
  that is a string or \<^verbatim>\<open>None\<close>.
\<close>

definition lower_char :: "char \<Rightarrow> char" where
  "lower_char c =
     (let n = (of_char c :: nat) in if 65 \<le> n \<and> n \<le> 90 then char_of (n + 32) else c)"

definition lower :: "string \<Rightarrow> string" where
  "lower s = map lower_char s"

definition fmt :: "string option \<Rightarrow> string" where
  "fmt v = (case v of None \<Rightarrow> ''None'' | Some s \<Rightarrow> s)"

text \<open>Truthiness of a string-or-\<^verbatim>\<open>None\<close> value: \<^verbatim>\<open>if domain_id:\<close>.\<close>

definition truthy :: "string option \<Rightarrow> bool" where
  "truthy v = (case v of None \<Rightarrow> False | Some s \<Rightarrow> s \<noteq> [])"

section \<open>The indicator payload\<close>

text \<open>
  The dictionary \<^verbatim>\<open>indicator_data\<close> built in \<^verbatim>\<open>import_complete_data\<close> for an indicator
  that is not skipped (lines 344 to 352).
\<close>

definition governance_of :: "string option \<Rightarrow> bool" where
  "governance_of cat =
     (let c = (case cat of None \<Rightarrow> [] | Some s \<Rightarrow> s)
      in sublist ''baseline'' (lower c) \<or> sublist ''required'' (lower c))"

definition mk_indicator_data :: "indicator_json \<Rightarrow> string \<Rightarrow> indicator_data" where
  "mk_indicator_data indicator_json subdomain_name =
     \<lparr> id_name = ij_name indicator_json,
       id_periodicity = ch_periodicity (ij_characteristics indicator_json),
       id_favourites = (case ij_id indicator_json of None \<Rightarrow> 0 | Some n \<Rightarrow> n) mod 5,
       id_governance = governance_of (ij_categorization indicator_json),
       id_description =
         ''Indicator '' @ ij_name indicator_json @ '' from domain '' @ subdomain_name,
       id_font = ch_source (ij_characteristics indicator_json),
       id_scale = ch_scale (ij_characteristics indicator_json) \<rparr>"

text \<open>The indicator of the scenario: GDP, id 7, categorization "Required KPI".\<close>

definition gdp :: indicator_json where
  "gdp = \<lparr> ij_name = ''GDP'', ij_id = Some 7, ij_categorization = Some ''Required KPI'',
           ij_characteristics =
             \<lparr> ch_periodicity = ''annual'', ch_source = ''WorldBank'', ch_scale = ''billions'' \<rparr> \<rparr>"

section \<open>The two services as the script sees them\<close>

text \<open>
  A call of \<^verbatim>\<open>requests.get\<close> or \<^verbatim>\<open>requests.post\<close> either returns a response, with a
  status code and a body, or raises \<^verbatim>\<open>RequestException\<close>. The body is the decoded
  JSON of the shape the endpoint answers with; the script reads it only after it has
  checked the status code.
\<close>

datatype 'a response = Response nat 'a | RequestException

datatype request =
    Get_health
  | Get_domains
  | Post_domain domain_data
  | Get_indicators "nat option" nat
  | Get_domain_indicators string nat
  | Post_indicator string string indicator_data
  | Get_resources
  | Post_resource resource_data
  | Post_indicator_resource string string

text \<open>
  The services are a parameter of the script: a state \<open>'w\<close> that the script cannot see
  and one handler for each endpoint, which answers and gives the next state.
\<close>

record 'w service =
  on_get_health :: "'w \<Rightarrow> unit response \<times> 'w"
  on_get_domains :: "'w \<Rightarrow> domain_record list response \<times> 'w"
  on_post_domain :: "domain_data \<Rightarrow> 'w \<Rightarrow> domain_record response \<times> 'w"
  on_get_indicators :: "nat option \<Rightarrow> nat \<Rightarrow> 'w \<Rightarrow> indicator_record list response \<times> 'w"
  on_get_domain_indicators :: "string \<Rightarrow> nat \<Rightarrow> 'w \<Rightarrow> indicator_record list response \<times> 'w"
  on_post_indicator :: "string \<Rightarrow> string \<Rightarrow> indicator_data \<Rightarrow> 'w \<Rightarrow> unit response \<times> 'w"
  on_get_resources :: "'w \<Rightarrow> resource_record list response \<times> 'w"
  on_post_resource :: "resource_data \<Rightarrow> 'w \<Rightarrow> resource_record response \<times> 'w"
  on_post_indicator_resource :: "string \<Rightarrow> string \<Rightarrow> 'w \<Rightarrow> unit response \<times> 'w"

text \<open>
  The outcome lines that the backfill pass prints for an indicator: skipped because its
  resource exists, resource added, resource created but not linked, no resource created.
\<close>

datatype report =
    Skipping "string option" string
  | Added string "string option"
  | Failed_to_link string "string option"
  | No_resource_created "string option"

text \<open>
  The state of a run: the services, the requests sent so far in order, and the outcome
  lines printed so far.
\<close>

record 'w run =
  world :: 'w
  sent :: "request list"
  console :: "report list"

definition send :: "request \<Rightarrow> ('w \<Rightarrow> 'a response \<times> 'w) \<Rightarrow> 'w run \<Rightarrow> 'a response \<times> 'w run" where
  "send rq h s = (case h (world s) of (r, w') \<Rightarrow> (r, s\<lparr>world := w', sent := sent s @ [rq]\<rparr>))"

definition say :: "report \<Rightarrow> 'w run \<Rightarrow> 'w run" where
  "say r s = s\<lparr>console := console s @ [r]\<rparr>"

section \<open>The client functions\<close>

definition check_service_health :: "'w service \<Rightarrow> 'w run \<Rightarrow> bool \<times> 'w run" where
  "check_service_health svc s =
     (case send Get_health (on_get_health svc) s of
        (Response code _, s') \<Rightarrow> (code = 200, s')
      | (RequestException, s') \<Rightarrow> (False, s'))"

definition create_domain :: "'w service \<Rightarrow> domain_data \<Rightarrow> 'w run \<Rightarrow> string option \<times> 'w run" where
  "create_domain svc domain_data s =
     (case send (Post_domain domain_data) (on_post_domain svc domain_data) s of
        (Response code domain, s') \<Rightarrow>
          (if code = 200 \<or> code = 201 then dom_id domain else None, s')
      | (RequestException, s') \<Rightarrow> (None, s'))"

text \<open>
  The \<^verbatim>\<open>while True\<close> loop of \<^verbatim>\<open>get_all_indicators_with_pagination\<close>, with
  \<^verbatim>\<open>limit = 50\<close>. The loop ends on an empty page, on a status other than 200 and on a
  \<^verbatim>\<open>RequestException\<close>; against a service that always answers with a non-empty page it
  does not end, and the value is \<open>None\<close>.
\<close>

partial_function (option) fetch_pages ::
  "'w service \<Rightarrow> nat \<Rightarrow> indicator_record list \<Rightarrow> 'w run \<Rightarrow> (indicator_record list \<times> 'w run) option"
where
  "fetch_pages svc skip all_indicators s =
     (case send (Get_indicators (Some skip) 50) (on_get_indicators svc (Some skip) 50) s of
        (Response code indicators, s') \<Rightarrow>
          if code = 200 then
            (if indicators = [] then Some (all_indicators, s')
             else fetch_pages svc (skip + 50) (all_indicators @ indicators) s')
          else Some (all_indicators, s')
      | (RequestException, s') \<Rightarrow> Some (all_indicators, s'))"

declare fetch_pages.simps [code]

definition get_all_indicators_with_pagination ::
  "'w service \<Rightarrow> 'w run \<Rightarrow> (indicator_record list \<times> 'w run) option" where
  "get_all_indicators_with_pagination svc s = fetch_pages svc 0 [] s"

text \<open>The lookup by name: records with no name or an empty name are left out, and the
  last record of a name wins.\<close>

definition add_by_name ::
  "indicator_record \<Rightarrow> (string \<rightharpoonup> indicator_record) \<Rightarrow> (string \<rightharpoonup> indicator_record)" where
  "add_by_name indicator existing_indicators =
     (case ind_name indicator of
        None \<Rightarrow> existing_indicators
      | Some indicator_name \<Rightarrow>
          if indicator_name \<noteq> [] then existing_indicators(indicator_name \<mapsto> indicator)
          else existing_indicators)"

definition get_existing_indicators ::
  "'w service \<Rightarrow> 'w run \<Rightarrow> ((string \<rightharpoonup> indicator_record) \<times> 'w run) option" where
  "get_existing_indicators svc s =
     (case get_all_indicators_with_pagination svc s of
        None \<Rightarrow> None
      | Some (indicators, s') \<Rightarrow> Some (fold add_by_name indicators Map.empty, s'))"

definition create_indicator ::
  "'w service \<Rightarrow> indicator_data \<Rightarrow> string \<Rightarrow> string \<Rightarrow> 'w run \<Rightarrow> bool \<times> 'w run" where
  "create_indicator svc indicator_data domain_id subdomain_name s =
     (case send (Post_indicator domain_id subdomain_name indicator_data)
             (on_post_indicator svc domain_id subdomain_name indicator_data) s of
        (Response code _, s') \<Rightarrow> (code = 200 \<or> code = 201, s')
      | (RequestException, s') \<Rightarrow> (False, s'))"

definition mk_resource_data :: "string option \<Rightarrow> string option \<Rightarrow> resource_data" where
  "mk_resource_data indicator_name indicator_id =
     \<lparr> rd_wrapper_id = ''wrapper_'' @ fmt indicator_id,
       rd_name = ''Resource for '' @ fmt indicator_name,
       rd_type = ''indicator_data'' \<rparr>"

definition create_resource_in_service ::
  "'w service \<Rightarrow> string option \<Rightarrow> string option \<Rightarrow> 'w run \<Rightarrow> string option \<times> 'w run" where
  "create_resource_in_service svc indicator_name indicator_id s =
     (let resource_data = mk_resource_data indicator_name indicator_id in
      case send (Post_resource resource_data) (on_post_resource svc resource_data) s of
        (Response code resource, s') \<Rightarrow>
          (if code = 200 \<or> code = 201 then res_id resource else None, s')
      | (RequestException, s') \<Rightarrow> (None, s'))"

definition add_resource_to_indicator ::
  "'w service \<Rightarrow> string option \<Rightarrow> string \<Rightarrow> 'w run \<Rightarrow> bool \<times> 'w run" where
  "add_resource_to_indicator svc indicator_id resource_id s =
     (case send (Post_indicator_resource (fmt indicator_id) resource_id)
             (on_post_indicator_resource svc (fmt indicator_id) resource_id) s of
        (Response code _, s') \<Rightarrow> (code = 200 \<or> code = 201, s')
      | (RequestException, s') \<Rightarrow> (False, s'))"

definition get_existing_domains :: "'w service \<Rightarrow> 'w run \<Rightarrow> domain_record list \<times> 'w run" where
  "get_existing_domains svc s =
     (case send Get_domains (on_get_domains svc) s of
        (Response code domains, s') \<Rightarrow> (if code = 200 then domains else [], s')
      | (RequestException, s') \<Rightarrow> ([], s'))"

section \<open>The backfill pass\<close>

text \<open>
  Lines 186 to 218 of \<^verbatim>\<open>add_resources_to_all_indicators\<close>: whether the loop goes on to
  create a resource for the indicator (\<open>True\<close>) or skips it with \<^verbatim>\<open>continue\<close>
  (\<open>False\<close>). The listing of the resource service is requested inside the loop body.
  The bare \<^verbatim>\<open>except:\<close> turns a failed request into \<open>True\<close>.
\<close>

definition should_create_new :: "'w service \<Rightarrow> indicator_record \<Rightarrow> 'w run \<Rightarrow> bool \<times> 'w run" where
  "should_create_new svc indicator s =
     (let existing_resources = ind_resources indicator in
      if existing_resources \<noteq> [] then
        if length existing_resources = 1 \<and> hd existing_resources = ''string'' then (True, s)
        else if length existing_resources = 1 \<and> suffix ''_resource'' (hd existing_resources)
        then (True, s)
        else
          (let existing_resource_id = hd existing_resources in
           case send Get_resources (on_get_resources svc) s of
             (Response code resources_list, s') \<Rightarrow>
               if code = 200 then
                 (if list_ex (\<lambda>r. res_id r = Some existing_resource_id) resources_list
                  then (False, say (Skipping (ind_name indicator) existing_resource_id) s')
                  else (True, s'))
               else (True, s')
           | (RequestException, s') \<Rightarrow> (True, s'))
      else (True, s))"

record counters =
  total_indicators :: nat
  updated_indicators :: nat
  total_resources :: nat

text \<open>The body of the \<^verbatim>\<open>for indicator in indicators\<close> loop (lines 177 to 236).\<close>

definition backfill_indicator ::
  "'w service \<Rightarrow> indicator_record \<Rightarrow> counters \<times> 'w run \<Rightarrow> counters \<times> 'w run" where
  "backfill_indicator svc indicator cs =
     (case cs of (c0, s) \<Rightarrow>
      let c = c0\<lparr>total_indicators := total_indicators c0 + 1\<rparr> in
      (case should_create_new svc indicator s of
        (False, s1) \<Rightarrow> (c, s1)
      | (True, s1) \<Rightarrow>
          (case create_resource_in_service svc (ind_name indicator) (ind_id indicator) s1 of
             (None, s2) \<Rightarrow> (c, say (No_resource_created (ind_name indicator)) s2)
           | (Some resource_id, s2) \<Rightarrow>
               if resource_id \<noteq> [] then
                 (case add_resource_to_indicator svc (ind_id indicator) resource_id s2 of
                    (True, s3) \<Rightarrow>
                      (c\<lparr>updated_indicators := updated_indicators c + 1,
                         total_resources := total_resources c + 1\<rparr>,
                       say (Added resource_id (ind_name indicator)) s3)
                  | (False, s3) \<Rightarrow>
                      (c, say (Failed_to_link resource_id (ind_name indicator)) s3))
               else (c, say (No_resource_created (ind_name indicator)) s2))))"

definition no_counts :: counters where
  "no_counts = \<lparr> total_indicators = 0, updated_indicators = 0, total_resources = 0 \<rparr>"

text \<open>
  The function returns a truth value and prints the three counters; the model returns
  both. With no indicator fetched it returns \<^verbatim>\<open>False\<close> before any counter exists.
\<close>

definition add_resources_to_all_indicators ::
  "'w service \<Rightarrow> 'w run \<Rightarrow> ((bool \<times> counters option) \<times> 'w run) option" where
  "add_resources_to_all_indicators svc s =
     (case get_all_indicators_with_pagination svc s of
        None \<Rightarrow> None
      | Some (indicators, s1) \<Rightarrow>
          if indicators = [] then Some ((False, None), s1)
          else
            (case fold (backfill_indicator svc) indicators (no_counts, s1) of
               (c, s2) \<Rightarrow> Some ((updated_indicators c > 0, Some c), s2)))"

section \<open>The import\<close>

definition mk_domain_data :: "domain_json \<Rightarrow> domain_data" where
  "mk_domain_data domain_json =
     \<lparr> dd_name = dj_name domain_json,
       dd_color = (case dj_DomainColor domain_json of None \<Rightarrow> ''#000000'' | Some c \<Rightarrow> c),
       dd_image = (case dj_DomainImage domain_json of None \<Rightarrow> [] | Some i \<Rightarrow> i),
       dd_subdomains = map sj_name (dj_subdomains domain_json) \<rparr>"

text \<open>
  \<^verbatim>\<open>domain_id_map\<close> is a dictionary from the names of the live domains, which may be
  \<^verbatim>\<open>None\<close>, to their ids, which may be \<^verbatim>\<open>None\<close> too; \<^verbatim>\<open>domain_id_map.get(name)\<close> is
  \<open>id_of\<close>.
\<close>

type_synonym id_map = "string option \<rightharpoonup> string option"

definition id_of :: "id_map \<Rightarrow> string \<Rightarrow> string option" where
  "id_of domain_id_map domain_name =
     (case domain_id_map (Some domain_name) of None \<Rightarrow> None | Some v \<Rightarrow> v)"

definition note_domain :: "domain_record \<Rightarrow> id_map \<Rightarrow> id_map" where
  "note_domain domain domain_id_map = domain_id_map(dom_name domain \<mapsto> dom_id domain)"

text \<open>The body of the first loop over the desired domains (lines 285 to 306).\<close>

definition domain_step ::
  "'w service \<Rightarrow> string option set \<Rightarrow> domain_json \<Rightarrow> id_map \<times> 'w run \<Rightarrow> id_map \<times> 'w run" where
  "domain_step svc existing_domain_names domain_json ms =
     (case ms of (domain_id_map, s) \<Rightarrow>
      if Some (dj_name domain_json) \<in> existing_domain_names then (domain_id_map, s)
      else
        (case create_domain svc (mk_domain_data domain_json) s of
           (domain_id, s') \<Rightarrow>
             (if truthy domain_id
              then domain_id_map(Some (dj_name domain_json) \<mapsto> domain_id)
              else domain_id_map, s')))"

record import_counters =
  processed_indicators :: nat
  created_indicators :: nat
  skipped_indicators :: nat

definition no_imports :: import_counters where
  "no_imports = \<lparr> processed_indicators = 0, created_indicators = 0, skipped_indicators = 0 \<rparr>"

text \<open>The body of the innermost loop (lines 333 to 357).\<close>

definition indicator_step ::
  "'w service \<Rightarrow> (string \<rightharpoonup> indicator_record) \<Rightarrow> string \<Rightarrow> string \<Rightarrow> indicator_json \<Rightarrow>
     import_counters \<times> 'w run \<Rightarrow> import_counters \<times> 'w run" where
  "indicator_step svc existing_indicators domain_id subdomain_name indicator_json cs =
     (case cs of (c0, s) \<Rightarrow>
      let c = c0\<lparr>processed_indicators := processed_indicators c0 + 1\<rparr> in
      if existing_indicators (ij_name indicator_json) \<noteq> None
      then (c\<lparr>skipped_indicators := skipped_indicators c + 1\<rparr>, s)
      else
        (case create_indicator svc (mk_indicator_data indicator_json subdomain_name)
                domain_id subdomain_name s of
           (True, s') \<Rightarrow> (c\<lparr>created_indicators := created_indicators c + 1\<rparr>, s')
         | (False, s') \<Rightarrow> (c, s')))"

definition subdomain_step ::
  "'w service \<Rightarrow> (string \<rightharpoonup> indicator_record) \<Rightarrow> string \<Rightarrow> subdomain_json \<Rightarrow>
     import_counters \<times> 'w run \<Rightarrow> import_counters \<times> 'w run" where
  "subdomain_step svc existing_indicators domain_id subdomain cs =
     fold (indicator_step svc existing_indicators domain_id (sj_name subdomain))
       (sj_indicators subdomain) cs"

text \<open>The body of the second loop over the desired domains (lines 319 to 357).\<close>

definition domain_indicators_step ::
  "'w service \<Rightarrow> (string \<rightharpoonup> indicator_record) \<Rightarrow> id_map \<Rightarrow> domain_json \<Rightarrow>
     import_counters \<times> 'w run \<Rightarrow> import_counters \<times> 'w run" where
  "domain_indicators_step svc existing_indicators domain_id_map domain_json cs =
     (case id_of domain_id_map (dj_name domain_json) of
        None \<Rightarrow> cs
      | Some domain_id \<Rightarrow>
          if domain_id \<noteq> []
          then fold (subdomain_step svc existing_indicators domain_id) (dj_subdomains domain_json) cs
          else cs)"

text \<open>
  \<^verbatim>\<open>import_complete_data\<close> returns a truth value and prints the counters; the model
  returns both. The file is read before any request is sent.
\<close>

definition import_complete_data ::
  "'w service \<Rightarrow> domains_file \<Rightarrow> 'w run \<Rightarrow> ((bool \<times> import_counters option) \<times> 'w run) option" where
  "import_complete_data svc file s =
     (case file of
        Unreadable \<Rightarrow> Some ((False, None), s)
      | No_domains_key \<Rightarrow> Some ((False, None), s)
      | Domains_data domains \<Rightarrow>
          (case get_existing_domains svc s of
             (existing_domains, s1) \<Rightarrow>
               (case fold (domain_step svc (set (map dom_name existing_domains))) domains
                       (fold note_domain existing_domains Map.empty, s1) of
                  (domain_id_map, s2) \<Rightarrow>
                    (case get_existing_indicators svc s2 of
                       None \<Rightarrow> None
                     | Some (existing_indicators, s3) \<Rightarrow>
                         (case fold (domain_indicators_step svc existing_indicators domain_id_map)
                                 domains (no_imports, s3) of
                            (c, s4) \<Rightarrow> Some ((created_indicators c > 0, Some c), s4))))))"

section \<open>The checks after the import and the main function\<close>

text \<open>
  \<^verbatim>\<open>test_api_endpoints\<close> only prints what it reads; any exception ends it. Its last step
  is the paginated fetch, so it ends when that fetch ends.
\<close>

definition test_api_endpoints :: "'w service \<Rightarrow> 'w run \<Rightarrow> 'w run option" where
  "test_api_endpoints svc s =
     (case send (Get_indicators None 5) (on_get_indicators svc None 5) s of
        (RequestException, s1) \<Rightarrow> Some s1
      | (Response _ _, s1) \<Rightarrow>
          (case send Get_domains (on_get_domains svc) s1 of
             (RequestException, s2) \<Rightarrow> Some s2
           | (Response code domains, s2) \<Rightarrow>
               if code = 200 \<and> domains \<noteq> [] then
                 (case send (Get_domain_indicators (fmt (dom_id (hd domains))) 3)
                         (on_get_domain_indicators svc (fmt (dom_id (hd domains))) 3) s2 of
                    (RequestException, s3) \<Rightarrow> Some s3
                  | (Response _ _, s3) \<Rightarrow>
                      map_option snd (get_all_indicators_with_pagination svc s3))
               else map_option snd (get_all_indicators_with_pagination svc s2)))"

text \<open>The exit status of the process: 1 from \<^verbatim>\<open>sys.exit(1)\<close>, 0 when \<^verbatim>\<open>main\<close> returns.\<close>

definition main :: "'w service \<Rightarrow> domains_file \<Rightarrow> 'w run \<Rightarrow> (nat \<times> 'w run) option" where
  "main svc file s =
     (case check_service_health svc s of
        (False, s1) \<Rightarrow> Some (1, s1)
      | (True, s1) \<Rightarrow>
          (case import_complete_data svc file s1 of
             None \<Rightarrow> None
           | Some ((imported, _), s2) \<Rightarrow>
               if imported then
                 (case add_resources_to_all_indicators svc s2 of
                    None \<Rightarrow> None
                  | Some (_, s3) \<Rightarrow>
                      (case test_api_endpoints svc s3 of
                         None \<Rightarrow> None
                       | Some s4 \<Rightarrow> Some (0, s4)))
               else Some (1, s2)))"

section \<open>A model of the two services\<close>

text \<open>
  Modelled from the spec: the catalog service and the resource service, which are not
  part of this repository. Section 6 of the specification gives their contract: the
  catalog service lists its domains, lists its indicators in pages of at most 50 from an
  offset, creates a domain or an indicator on a POST and answers a link write with a
  status only; the resource service lists its resources and creates one on a POST. Ids
  are assigned by the services. The model keeps the records in the order of their
  creation. It accepts the creation of a domain, of a resource and of an indicator
  whose name it does not hold, and answers 409 to the creation of an indicator whose
  name it holds: no two live indicators share a name (sections 4.1 and 8). A link write
  leaves the indicator with the new resource as its only reference (one resource for
  an indicator, section 3; a placeholder is replaced, sections 4.2 and 8); the model
  answers 404 to a link write for an indicator it does not hold.
\<close>

record catalog =
  cat_domains :: "domain_record list"
  cat_indicators :: "indicator_record list"
  cat_resources :: "resource_record list"
  cat_next :: nat

definition new_id :: "nat \<Rightarrow> string" where
  "new_id n = ''oid'' @ replicate n (CHR ''i'')"

definition mem_get_health :: "catalog \<Rightarrow> unit response \<times> catalog" where
  "mem_get_health w = (Response 200 (), w)"

definition mem_get_domains :: "catalog \<Rightarrow> domain_record list response \<times> catalog" where
  "mem_get_domains w = (Response 200 (cat_domains w), w)"

definition mem_post_domain :: "domain_data \<Rightarrow> catalog \<Rightarrow> domain_record response \<times> catalog" where
  "mem_post_domain d w =
     (let r = \<lparr> dom_id = Some (new_id (cat_next w)), dom_name = Some (dd_name d) \<rparr>
      in (Response 201 r, w\<lparr>cat_domains := cat_domains w @ [r], cat_next := Suc (cat_next w)\<rparr>))"

definition mem_get_indicators ::
  "nat option \<Rightarrow> nat \<Rightarrow> catalog \<Rightarrow> indicator_record list response \<times> catalog" where
  "mem_get_indicators skip limit w =
     (Response 200
        (take (min limit 50) (drop (case skip of None \<Rightarrow> 0 | Some k \<Rightarrow> k) (cat_indicators w))), w)"

definition mem_get_domain_indicators ::
  "string \<Rightarrow> nat \<Rightarrow> catalog \<Rightarrow> indicator_record list response \<times> catalog" where
  "mem_get_domain_indicators d limit w =
     (Response 200
        (take (min limit 50) (filter (\<lambda>i. ind_domain i = Some d) (cat_indicators w))), w)"

definition mem_post_indicator ::
  "string \<Rightarrow> string \<Rightarrow> indicator_data \<Rightarrow> catalog \<Rightarrow> unit response \<times> catalog" where
  "mem_post_indicator d sub p w =
     (if list_ex (\<lambda>x. ind_name x = Some (id_name p)) (cat_indicators w)
      then (Response 409 (), w)
      else
        (let r = \<lparr> ind_id = Some (new_id (cat_next w)), ind_name = Some (id_name p),
                   ind_domain = Some d, ind_resources = [] \<rparr>
         in (Response 201 (),
             w\<lparr>cat_indicators := cat_indicators w @ [r], cat_next := Suc (cat_next w)\<rparr>)))"

definition mem_get_resources :: "catalog \<Rightarrow> resource_record list response \<times> catalog" where
  "mem_get_resources w = (Response 200 (cat_resources w), w)"

definition mem_post_resource :: "resource_data \<Rightarrow> catalog \<Rightarrow> resource_record response \<times> catalog" where
  "mem_post_resource d w =
     (let r = \<lparr> res_id = Some (new_id (cat_next w)) \<rparr>
      in (Response 201 r, w\<lparr>cat_resources := cat_resources w @ [r], cat_next := Suc (cat_next w)\<rparr>))"

definition link :: "string \<Rightarrow> string \<Rightarrow> indicator_record \<Rightarrow> indicator_record" where
  "link i r x = (if ind_id x = Some i then x\<lparr>ind_resources := [r]\<rparr> else x)"

definition mem_post_indicator_resource ::
  "string \<Rightarrow> string \<Rightarrow> catalog \<Rightarrow> unit response \<times> catalog" where
  "mem_post_indicator_resource i r w =
     (if list_ex (\<lambda>x. ind_id x = Some i) (cat_indicators w)
      then (Response 200 (), w\<lparr>cat_indicators := map (link i r) (cat_indicators w)\<rparr>)
      else (Response 404 (), w))"

definition memory_service :: "catalog service" where
  "memory_service =
     \<lparr> on_get_health = mem_get_health,
       on_get_domains = mem_get_domains,
       on_post_domain = mem_post_domain,
       on_get_indicators = mem_get_indicators,
       on_get_domain_indicators = mem_get_domain_indicators,
       on_post_indicator = mem_post_indicator,
       on_get_resources = mem_get_resources,
       on_post_resource = mem_post_resource,
       on_post_indicator_resource = mem_post_indicator_resource \<rparr>"

definition start :: "'w \<Rightarrow> 'w run" where
  "start w = \<lparr> world = w, sent = [], console = [] \<rparr>"

section \<open>Observations of a run and concrete inputs\<close>

text \<open>A response that passes the test \<^verbatim>\<open>response.status_code == 200\<close>.\<close>

definition ok200 :: "'a response \<Rightarrow> bool" where
  "ok200 rsp = (case rsp of Response code _ \<Rightarrow> code = 200 | RequestException \<Rightarrow> False)"

text \<open>
  An indicator for which the loop body reaches the request for the listing of the
  resource service: its resources are not empty and are not a single placeholder.
\<close>

definition needs_listing :: "indicator_record \<Rightarrow> bool" where
  "needs_listing x =
     (ind_resources x \<noteq> [] \<and>
      \<not> (length (ind_resources x) = 1 \<and>
           (hd (ind_resources x) = ''string'' \<or> suffix ''_resource'' (hd (ind_resources x)))))"

text \<open>How often the listing of the resource service has been requested in a run.\<close>

definition listings :: "'w run \<Rightarrow> nat" where
  "listings s = count_list (sent s) Get_resources"

text \<open>The catalog of the scenario before the first run, and a catalog whose two
  indicators are both linked to a resource that exists.\<close>

definition empty_catalog :: catalog where
  "empty_catalog = \<lparr> cat_domains = [], cat_indicators = [], cat_resources = [], cat_next = 0 \<rparr>"

definition linked_catalog :: catalog where
  "linked_catalog =
     \<lparr> cat_domains = [\<lparr> dom_id = Some ''d1'', dom_name = Some ''Economy'' \<rparr>],
       cat_indicators =
         [\<lparr> ind_id = Some ''i1'', ind_name = Some ''GDP'', ind_domain = Some ''d1'',
             ind_resources = [''r1''] \<rparr>,
          \<lparr> ind_id = Some ''i2'', ind_name = Some ''CPI'', ind_domain = Some ''d1'',
             ind_resources = [''r2''] \<rparr>],
       cat_resources = [\<lparr> res_id = Some ''r1'' \<rparr>, \<lparr> res_id = Some ''r2'' \<rparr>],
       cat_next = 0 \<rparr>"

text \<open>
  A catalog service in trouble, for the failure paths: it answers 503 to the listing of
  domains, serves the first page of indicators and drops the connection on every later
  page, and answers 500 to every link write.
\<close>

definition failing_service :: "catalog service" where
  "failing_service =
     memory_service
       \<lparr> on_get_domains := (\<lambda>w. (Response 503 [], w)),
         on_get_indicators :=
           (\<lambda>skip limit w. if skip = Some 0 then mem_get_indicators skip limit w
                            else (RequestException, w)),
         on_post_indicator_resource := (\<lambda>i r w. (Response 500 (), w)) \<rparr>"

text \<open>The requests for \<open>n\<close> successive pages of 50, the first at offset \<open>skip\<close>.\<close>

definition page_requests :: "nat \<Rightarrow> nat \<Rightarrow> request list" where
  "page_requests skip n = map (\<lambda>j. Get_indicators (Some (skip + 50 * j)) 50) [0..<n]"

text \<open>A catalog of 120 indicators, which takes three pages.\<close>

definition crowded_catalog :: catalog where
  "crowded_catalog =
     \<lparr> cat_domains = [],
       cat_indicators =
         replicate 120 \<lparr> ind_id = Some ''i1'', ind_name = Some ''GDP'', ind_domain = Some ''d1'',
                          ind_resources = [] \<rparr>,
       cat_resources = [], cat_next = 0 \<rparr>"

text \<open>The printed line of a resource that was created and linked.\<close>

fun is_added :: "report \<Rightarrow> bool" where
  "is_added (Added _ _) = True"
| "is_added _ = False"

text \<open>
  The catalog of the scenario after the import and before the backfill pass: GDP has
  no resource. Below it, the same catalog after a resource was created for GDP that no
  indicator refers to.
\<close>

definition unlinked_catalog :: catalog where
  "unlinked_catalog =
     \<lparr> cat_domains = [\<lparr> dom_id = Some ''d1'', dom_name = Some ''Economy'' \<rparr>],
       cat_indicators =
         [\<lparr> ind_id = Some ''i1'', ind_name = Some ''GDP'', ind_domain = Some ''d1'',
             ind_resources = [] \<rparr>],
       cat_resources = [], cat_next = 0 \<rparr>"

definition orphaned_catalog :: catalog where
  "orphaned_catalog = unlinked_catalog\<lparr>cat_resources := [\<lparr> res_id = Some ''oid'' \<rparr>], cat_next := 1\<rparr>"

text \<open>The first indicator of \<open>linked_catalog\<close>.\<close>

definition gdp_record :: indicator_record where
  "gdp_record = \<lparr> ind_id = Some ''i1'', ind_name = Some ''GDP'', ind_domain = Some ''d1'',
                   ind_resources = [''r1''] \<rparr>"


section \<open>Documents, whole runs and the notions of the idempotence proof\<close>

text \<open>
  The desired-state document of the scenario: one domain Economy whose subdomain Trade
  holds GDP. Below it, the same document with an indicator whose name is the empty
  string.
\<close>

definition economy :: domain_json where
  "economy = \<lparr> dj_name = ''Economy'', dj_DomainColor = None, dj_DomainImage = None,
               dj_subdomains = [\<lparr> sj_name = ''Trade'', sj_indicators = [gdp] \<rparr>] \<rparr>"

definition nameless :: domain_json where
  "nameless = \<lparr> dj_name = ''Economy'', dj_DomainColor = None, dj_DomainImage = None,
                dj_subdomains = [\<lparr> sj_name = ''Trade'', sj_indicators = [gdp\<lparr>ij_name := []\<rparr>] \<rparr>] \<rparr>"

text \<open>All indicators of a document, in the order of the document.\<close>

definition desired_indicators :: "domain_json list \<Rightarrow> indicator_json list" where
  "desired_indicators domains =
     concat (map (\<lambda>d. concat (map sj_indicators (dj_subdomains d))) domains)"

text \<open>The writes among the requests of a run.\<close>

fun is_post :: "request \<Rightarrow> bool" where
  "is_post (Post_domain _) = True"
| "is_post (Post_indicator _ _ _) = True"
| "is_post (Post_resource _) = True"
| "is_post (Post_indicator_resource _ _) = True"
| "is_post _ = False"

definition posts :: "'w run \<Rightarrow> request list" where
  "posts s = filter is_post (sent s)"

text \<open>
  Two runs of \<^verbatim>\<open>main\<close> in a row, the second in the state the first one left; the
  value holds the exit status and the final state of each run.
\<close>

definition run_twice ::
  "'w service \<Rightarrow> domains_file \<Rightarrow> 'w run \<Rightarrow> ((nat \<times> 'w run) \<times> (nat \<times> 'w run)) option" where
  "run_twice svc file s =
     (case main svc file s of
        None \<Rightarrow> None
      | Some (c1, s1) \<Rightarrow>
          (case main svc file s1 of
             None \<Rightarrow> None
           | Some (c2, s2) \<Rightarrow> Some ((c1, s1), (c2, s2))))"

text \<open>The number of indicators the model holds in a state of a run.\<close>

definition indicator_count :: "catalog run \<Rightarrow> nat" where
  "indicator_count s = length (cat_indicators (world s))"

text \<open>The number of requests sent in a run to create an indicator.\<close>

fun is_post_indicator :: "request \<Rightarrow> bool" where
  "is_post_indicator (Post_indicator _ _ _) = True"
| "is_post_indicator _ = False"

definition indicator_posts :: "'w run \<Rightarrow> nat" where
  "indicator_posts s = length (filter is_post_indicator (sent s))"

text \<open>
  What \<^verbatim>\<open>import_complete_data\<close> returns and prints in a second run of \<^verbatim>\<open>main\<close>, which
  starts in the state the first run left.
\<close>

definition second_import ::
  "'w service \<Rightarrow> domains_file \<Rightarrow> 'w run \<Rightarrow> (bool \<times> import_counters option) option" where
  "second_import svc file s =
     (case main svc file s of
        None \<Rightarrow> None
      | Some (c1, s1) \<Rightarrow>
          map_option fst (import_complete_data svc file (snd (check_service_health svc s1))))"

text \<open>The model with a health endpoint that does not answer.\<close>

definition down_service :: "catalog service" where
  "down_service = memory_service\<lparr>on_get_health := (\<lambda>w. (RequestException, w))\<rparr>"

text \<open>
  A later state extends an earlier one when it has the same domains and at least the
  same indicator names. An indicator is covered when its name is in the lookup or in the
  catalog. Two states have the same names when their domains are equal and their
  indicators carry the same names in the same order. A document is settled in a catalog
  when every desired domain name is present and, for every desired domain whose id the
  script resolves to a non-empty string from this catalog, the names of all its
  indicators are present.
\<close>

definition extends :: "catalog run \<Rightarrow> catalog run \<Rightarrow> bool" where
  "extends s s' \<longleftrightarrow>
     cat_domains (world s') = cat_domains (world s)
     \<and> ind_name ` set (cat_indicators (world s)) \<subseteq> ind_name ` set (cat_indicators (world s'))"

definition covered :: "(string \<rightharpoonup> indicator_record) \<Rightarrow> catalog run \<Rightarrow> indicator_json \<Rightarrow> bool" where
  "covered L s i \<longleftrightarrow>
     L (ij_name i) \<noteq> None \<or> Some (ij_name i) \<in> ind_name ` set (cat_indicators (world s))"

definition same_names :: "catalog run \<Rightarrow> catalog run \<Rightarrow> bool" where
  "same_names s s' \<longleftrightarrow>
     cat_domains (world s') = cat_domains (world s)
     \<and> map ind_name (cat_indicators (world s')) = map ind_name (cat_indicators (world s))"

definition settled :: "domain_json list \<Rightarrow> catalog \<Rightarrow> bool" where
  "settled ds w \<longleftrightarrow>
     (\<forall>d\<in>set ds. Some (dj_name d) \<in> dom_name ` set (cat_domains w))
     \<and> (\<forall>d\<in>set ds. truthy (id_of (fold note_domain (cat_domains w) Map.empty) (dj_name d)) \<longrightarrow>
          (\<forall>sub\<in>set (dj_subdomains d). \<forall>i\<in>set (sj_indicators sub).
             Some (ij_name i) \<in> ind_name ` set (cat_indicators w)))"

section \<open>The payload of a created indicator\<close>

lemma sublist_map_iff:
  "sublist n (map f xs) \<longleftrightarrow> (\<exists>w. sublist w xs \<and> map f w = n)"
  by (metis map_mono_sublist sublist_def sublist_map_rightE)

text \<open>
  Claim C3. For every desired indicator and owning subdomain, the payload built for its
  creation has: favourites equal to the numeric id modulo 5; governance true exactly
  when the categorization contains, in some mix of upper and lower case, the word
  "baseline" or the word "required"; the description "Indicator NAME from domain
  SUBDOMAIN"; and periodicity, source (sent under the key font) and scale copied from
  the characteristics. For GDP with id 7 and categorization "Required KPI" in subdomain
  Trade: favourites 2, governance true, description "Indicator GDP from domain Trade".
\<close>

theorem indicator_payload:
  "id_favourites (mk_indicator_data x sub) = (case ij_id x of None \<Rightarrow> 0 | Some n \<Rightarrow> n mod 5)
   \<and> id_governance (mk_indicator_data x sub) =
       (\<exists>cat w. ij_categorization x = Some cat \<and> sublist w cat
          \<and> (lower w = ''baseline'' \<or> lower w = ''required''))
   \<and> id_description (mk_indicator_data x sub) =
       ''Indicator '' @ ij_name x @ '' from domain '' @ sub
   \<and> id_name (mk_indicator_data x sub) = ij_name x
   \<and> id_periodicity (mk_indicator_data x sub) = ch_periodicity (ij_characteristics x)
   \<and> id_font (mk_indicator_data x sub) = ch_source (ij_characteristics x)
   \<and> id_scale (mk_indicator_data x sub) = ch_scale (ij_characteristics x)
   \<and> id_favourites (mk_indicator_data gdp ''Trade'') = 2
   \<and> id_governance (mk_indicator_data gdp ''Trade'') = True
   \<and> id_description (mk_indicator_data gdp ''Trade'') = ''Indicator GDP from domain Trade''"
proof -
  have fav: "id_favourites (mk_indicator_data x sub) =
      (case ij_id x of None \<Rightarrow> 0 | Some n \<Rightarrow> n mod 5)"
    by (simp add: mk_indicator_data_def split: option.splits)
  have gov: "id_governance (mk_indicator_data x sub) =
       (\<exists>cat w. ij_categorization x = Some cat \<and> sublist w cat
          \<and> (lower w = ''baseline'' \<or> lower w = ''required''))"
  proof (cases "ij_categorization x")
    case None
    then show ?thesis
      by (simp add: mk_indicator_data_def governance_of_def lower_def)
  next
    case (Some cat)
    then show ?thesis
      unfolding mk_indicator_data_def governance_of_def lower_def
      by (auto simp add: sublist_map_iff)
  qed
  have copied: "id_description (mk_indicator_data x sub) =
       ''Indicator '' @ ij_name x @ '' from domain '' @ sub"
    "id_name (mk_indicator_data x sub) = ij_name x"
    "id_periodicity (mk_indicator_data x sub) = ch_periodicity (ij_characteristics x)"
    "id_font (mk_indicator_data x sub) = ch_source (ij_characteristics x)"
    "id_scale (mk_indicator_data x sub) = ch_scale (ij_characteristics x)"
    by (simp_all add: mk_indicator_data_def)
  have scenario: "id_favourites (mk_indicator_data gdp ''Trade'') = 2"
    "id_description (mk_indicator_data gdp ''Trade'') = ''Indicator GDP from domain Trade''"
    by (simp_all add: mk_indicator_data_def gdp_def)
  have scenario_gov: "id_governance (mk_indicator_data gdp ''Trade'') = True"
    by code_simp
  from fav gov copied scenario scenario_gov show ?thesis
    by blast
qed

section \<open>Requests and printed lines of the client functions\<close>

lemma send_sent:
  "send rq h s = (r, s') \<Longrightarrow> sent s' = sent s @ [rq] \<and> console s' = console s"
  by (auto simp add: send_def split: prod.splits)

lemma should_create_new_sent:
  "should_create_new svc x s = (b, s') \<Longrightarrow>
     sent s' = sent s @ (if needs_listing x then [Get_resources] else [])"
  unfolding should_create_new_def needs_listing_def Let_def say_def
  by (auto split: if_splits prod.splits response.splits dest!: send_sent)

lemma create_resource_sent:
  "create_resource_in_service svc n i s = (r, s') \<Longrightarrow>
     sent s' = sent s @ [Post_resource (mk_resource_data n i)] \<and> console s' = console s"
  unfolding create_resource_in_service_def Let_def
  by (auto split: if_splits prod.splits response.splits dest!: send_sent)

lemma add_resource_sent:
  "add_resource_to_indicator svc i r s = (b, s') \<Longrightarrow>
     sent s' = sent s @ [Post_indicator_resource (fmt i) r] \<and> console s' = console s"
  unfolding add_resource_to_indicator_def
  by (auto split: if_splits prod.splits response.splits dest!: send_sent)

section \<open>The fetchers under failure\<close>

text \<open>
  Claim C5. The state-fetching functions return a value whatever the service answers.
  When the request for a page is answered with a status other than 200 or with a
  transport error, the loop of the indicator fetcher ends at once and returns exactly
  the records accumulated so far; in the same cases the domain fetcher returns the
  empty list.
\<close>

theorem fetchers_never_raise:
  "(on_get_indicators svc (Some skip) 50 (world s) = (rsp, w) \<and> \<not> ok200 rsp
      \<longrightarrow> fetch_pages svc skip acc s =
            Some (acc, s\<lparr>world := w, sent := sent s @ [Get_indicators (Some skip) 50]\<rparr>))
   \<and> (on_get_domains svc (world s) = (rsp', w') \<and> \<not> ok200 rsp'
      \<longrightarrow> get_existing_domains svc s = ([], s\<lparr>world := w', sent := sent s @ [Get_domains]\<rparr>))"
proof -
  have pages: "fetch_pages svc skip acc s =
      Some (acc, s\<lparr>world := w, sent := sent s @ [Get_indicators (Some skip) 50]\<rparr>)"
    if "on_get_indicators svc (Some skip) 50 (world s) = (rsp, w)" and "\<not> ok200 rsp"
    using that
    by (subst fetch_pages.simps) (auto simp add: send_def ok200_def split: response.splits)
  have doms: "get_existing_domains svc s = ([], s\<lparr>world := w', sent := sent s @ [Get_domains]\<rparr>)"
    if "on_get_domains svc (world s) = (rsp', w')" and "\<not> ok200 rsp'"
    using that
    by (auto simp add: get_existing_domains_def send_def ok200_def split: response.splits)
  from pages doms show ?thesis
    by blast
qed

theorem fetchers_never_raise_witness:
  "fetch_pages failing_service 50 (cat_indicators linked_catalog) (start linked_catalog) =
     Some (cat_indicators linked_catalog,
           \<lparr> world = linked_catalog, sent = [Get_indicators (Some 50) 50], console = [] \<rparr>)
   \<and> get_existing_domains failing_service (start linked_catalog) =
     ([], \<lparr> world = linked_catalog, sent = [Get_domains], console = [] \<rparr>)"
  using fetchers_never_raise [where svc = failing_service and skip = 50
      and s = "start linked_catalog" and rsp = RequestException and w = linked_catalog
      and rsp' = "Response 503 []" and w' = linked_catalog
      and acc = "cat_indicators linked_catalog"]
  by (simp add: failing_service_def ok200_def start_def)

section \<open>Pagination\<close>

lemma page_requests_Suc:
  "page_requests skip (Suc n) = Get_indicators (Some skip) 50 # page_requests (skip + 50) n"
  by (simp add: page_requests_def map_upt_Suc add.assoc del: upt_Suc)

lemma pages_arith: "0 < (d::nat) \<Longrightarrow> (d + 49) div 50 = Suc ((d - 50 + 49) div 50)"
proof -
  assume pos: "0 < d"
  have step: "(d + 49) div 50 = Suc ((d + 49 - 50) div 50)"
    by (rule le_div_geq) (use pos in simp_all)
  show ?thesis
  proof (cases "d < 50")
    case True
    with pos have "(d + 49 - 50) div 50 = 0" by simp
    moreover from True have "(d - 50 + 49) div 50 = 0" by simp
    ultimately show ?thesis using step by (simp only:)
  next
    case False
    then have "d + 49 - 50 = d - 50 + 49" by simp
    with step show ?thesis by (simp only:)
  qed
qed

text \<open>
  The loop against a service that holds the list \<open>inds\<close> and serves it in pages of 50:
  from offset \<open>skip\<close> it adds the rest of the list to what it has accumulated.
\<close>

lemma fetch_pages_all:
  assumes pages: "\<And>k. on_get_indicators svc (Some k) 50 (world s) =
      (Response 200 (take 50 (drop k inds)), world s)"
  shows "world t = world s \<Longrightarrow> fetch_pages svc skip acc t =
     Some (acc @ drop skip inds,
           t\<lparr>sent := sent t @ page_requests skip (Suc ((length inds - skip + 49) div 50))\<rparr>)"
proof (induction "length inds - skip" arbitrary: skip acc t rule: less_induct)
  case less
  have snd1: "send (Get_indicators (Some skip) 50) (on_get_indicators svc (Some skip) 50) t =
      (Response 200 (take 50 (drop skip inds)), t\<lparr>sent := sent t @ [Get_indicators (Some skip) 50]\<rparr>)"
    using pages[of skip] less.prems by (simp add: send_def)
  show ?case
  proof (cases "length inds \<le> skip")
    case True
    then show ?thesis
      by (subst fetch_pages.simps) (simp add: snd1 page_requests_def)
  next
    case False
    let ?t = "t\<lparr>sent := sent t @ [Get_indicators (Some skip) 50]\<rparr>"
    have lt: "length inds - (skip + 50) < length inds - skip" using False by simp
    have w: "world ?t = world s" using less.prems by simp
    have "length inds - (skip + 50) = length inds - skip - 50" by simp
    moreover have "0 < length inds - skip" using False by simp
    ultimately have n: "Suc ((length inds - skip + 49) div 50) =
        Suc (Suc ((length inds - (skip + 50) + 49) div 50))"
      using pages_arith[of "length inds - skip"] by (simp only:)
    have d: "take 50 (drop skip inds) @ drop (skip + 50) inds = drop skip inds"
      by (metis add.commute append_take_drop_id drop_drop)
    have "fetch_pages svc skip acc t =
        fetch_pages svc (skip + 50) (acc @ take 50 (drop skip inds)) ?t"
      using False by (subst fetch_pages.simps) (simp add: snd1)
    also have "\<dots> = Some ((acc @ take 50 (drop skip inds)) @ drop (skip + 50) inds,
        ?t\<lparr>sent := sent ?t @ page_requests (skip + 50) (Suc ((length inds - (skip + 50) + 49) div 50))\<rparr>)"
      by (rule less.hyps[OF lt w])
    finally show ?thesis
      using d by (simp add: n page_requests_Suc[of skip])
  qed
qed

lemma last_page_empty: "(n::nat) \<le> 50 * ((n + 49) div 50)"
proof -
  have "n + 49 < 50 + ((n + 49) div 50) * 50"
    by (rule dividend_less_div_times) simp
  then show ?thesis by simp
qed

lemma earlier_page_not_empty: "j < ((n::nat) + 49) div 50 \<Longrightarrow> 50 * j < n"
proof -
  assume "j < (n + 49) div 50"
  then have "Suc j \<le> (n + 49) div 50" by simp
  then have "Suc j * 50 \<le> n + 49"
    by (simp only: less_eq_div_iff_mult_less_eq [of 50, OF zero_less_numeral])
  then show ?thesis by simp
qed

text \<open>
  Claim C4. Against a catalog service that holds exactly N indicators and answers the
  request for the page at offset k with the (at most 50) records from position k on,
  the indicator fetcher returns exactly these N records, leaves the service as it was,
  and sends exactly ceil(N/50)+1 page requests, at the offsets 0, 50, 100 and so on
  (ceil(N/50) is \<open>(N + 49) div 50\<close>). Every page before the last request has a record
  and the page of the last request is empty: the loop ends on the first empty page.
\<close>

theorem pagination_complete:
  assumes "\<forall>k. on_get_indicators svc (Some k) 50 (world s) =
      (Response 200 (take 50 (drop k inds)), world s)"
  shows "get_all_indicators_with_pagination svc s =
      Some (inds, s\<lparr>sent := sent s @ page_requests 0 (Suc ((length inds + 49) div 50))\<rparr>)
    \<and> length (page_requests 0 (Suc ((length inds + 49) div 50))) = (length inds + 49) div 50 + 1
    \<and> (\<forall>j < (length inds + 49) div 50. take 50 (drop (50 * j) inds) \<noteq> [])
    \<and> take 50 (drop (50 * ((length inds + 49) div 50)) inds) = []"
proof -
  have "fetch_pages svc 0 [] s =
      Some ([] @ drop 0 inds, s\<lparr>sent := sent s @ page_requests 0 (Suc ((length inds - 0 + 49) div 50))\<rparr>)"
    by (rule fetch_pages_all [where s = s]) (use assms in simp_all)
  then have "get_all_indicators_with_pagination svc s =
      Some (inds, s\<lparr>sent := sent s @ page_requests 0 (Suc ((length inds + 49) div 50))\<rparr>)"
    by (simp add: get_all_indicators_with_pagination_def)
  moreover have "length (page_requests 0 (Suc ((length inds + 49) div 50))) =
      (length inds + 49) div 50 + 1"
    by (simp add: page_requests_def)
  moreover have "\<forall>j < (length inds + 49) div 50. take 50 (drop (50 * j) inds) \<noteq> []"
    using earlier_page_not_empty [of _ "length inds"] by (auto simp add: not_le)
  moreover have "take 50 (drop (50 * ((length inds + 49) div 50)) inds) = []"
    using last_page_empty [of "length inds"] by simp
  ultimately show ?thesis
    by blast
qed

theorem pagination_complete_witness:
  "get_all_indicators_with_pagination memory_service (start crowded_catalog) =
     Some (cat_indicators crowded_catalog,
           \<lparr> world = crowded_catalog,
             sent = [Get_indicators (Some 0) 50, Get_indicators (Some 50) 50,
                     Get_indicators (Some 100) 50, Get_indicators (Some 150) 50],
             console = [] \<rparr>)
   \<and> length (cat_indicators crowded_catalog) = 120"
proof -
  have served: "\<forall>k. on_get_indicators memory_service (Some k) 50 (world (start crowded_catalog)) =
      (Response 200 (take 50 (drop k (cat_indicators crowded_catalog))),
       world (start crowded_catalog))"
    by (simp add: memory_service_def mem_get_indicators_def start_def)
  have n: "length (cat_indicators crowded_catalog) = 120"
    by (simp add: crowded_catalog_def)
  have four: "page_requests 0 (Suc ((120 + 49) div 50)) =
      [Get_indicators (Some 0) 50, Get_indicators (Some 50) 50,
       Get_indicators (Some 100) 50, Get_indicators (Some 150) 50]"
    by (simp add: page_requests_def upt_rec)
  from pagination_complete [OF served] show ?thesis
    by (simp only: n four) (simp add: start_def)
qed

text \<open>The model of the services serves its indicators in pages of 50.\<close>

lemma mem_fetch_all:
  "get_all_indicators_with_pagination memory_service s =
     Some (cat_indicators (world s),
           s\<lparr>sent := sent s @
                page_requests 0 (Suc ((length (cat_indicators (world s)) + 49) div 50))\<rparr>)"
proof -
  have "fetch_pages memory_service 0 [] s =
      Some ([] @ drop 0 (cat_indicators (world s)),
            s\<lparr>sent := sent s @
                page_requests 0 (Suc ((length (cat_indicators (world s)) - 0 + 49) div 50))\<rparr>)"
    by (rule fetch_pages_all [where s = s])
       (simp_all add: memory_service_def mem_get_indicators_def)
  then show ?thesis
    by (simp add: get_all_indicators_with_pagination_def)
qed

section \<open>The decision to backfill\<close>

lemma listed: "list_ex (\<lambda>y. res_id y = Some r) l \<longleftrightarrow> Some r \<in> res_id ` set l"
  by (force simp add: list_ex_iff)

text \<open>
  Claim C2. For an indicator examined in the backfill pass the decision to create a
  resource is: true for empty resources; true for a single entry that is the
  placeholder "string" or ends in "_resource"; for a single entry of any other value,
  true exactly when the existence check fails (no answer, or a status other than 200)
  or the id is absent from the listing of the resource service. When membership is
  confirmed the decision is false and the loop body leaves the indicator untouched:
  the only request it sends is the listing, no resource is created and no link is
  written; it counts the indicator as processed and prints the skip line.
\<close>

theorem needs_backfill_decision:
  "(ind_resources e = [] \<longrightarrow> should_create_new svc e s = (True, s))
   \<and> (ind_resources p = [d] \<and> (d = ''string'' \<or> suffix ''_resource'' d)
        \<longrightarrow> should_create_new svc p s = (True, s))
   \<and> (ind_resources x = [r] \<and> r \<noteq> ''string'' \<and> \<not> suffix ''_resource'' r
        \<and> on_get_resources svc (world s) = (rsp, w)
        \<longrightarrow> fst (should_create_new svc x s) =
              (\<not> ok200 rsp \<or> (\<exists>code l. rsp = Response code l \<and> Some r \<notin> res_id ` set l))
          \<and> (\<not> fst (should_create_new svc x s)
               \<longrightarrow> backfill_indicator svc x (c, s) =
                     (c\<lparr>total_indicators := total_indicators c + 1\<rparr>,
                      s\<lparr>world := w, sent := sent s @ [Get_resources],
                        console := console s @ [Skipping (ind_name x) r]\<rparr>)))"
proof -
  have empty: "should_create_new svc e s = (True, s)" if "ind_resources e = []"
    using that by (simp add: should_create_new_def Let_def)
  have placeholder: "should_create_new svc p s = (True, s)"
    if "ind_resources p = [d]" "d = ''string'' \<or> suffix ''_resource'' d"
    using that by (auto simp add: should_create_new_def Let_def)
  have other: "should_create_new svc x s =
      (if ok200 rsp \<and> (\<exists>code l. rsp = Response code l \<and> Some r \<in> res_id ` set l)
       then (False, s\<lparr>world := w, sent := sent s @ [Get_resources],
                     console := console s @ [Skipping (ind_name x) r]\<rparr>)
       else (True, s\<lparr>world := w, sent := sent s @ [Get_resources]\<rparr>))"
    if "ind_resources x = [r]" "r \<noteq> ''string''" "\<not> suffix ''_resource'' r"
       "on_get_resources svc (world s) = (rsp, w)"
    using that
    by (cases rsp)
       (auto simp add: should_create_new_def Let_def send_def say_def ok200_def listed)
  have decided: "fst (should_create_new svc x s) =
      (\<not> ok200 rsp \<or> (\<exists>code l. rsp = Response code l \<and> Some r \<notin> res_id ` set l))"
    if "ind_resources x = [r]" "r \<noteq> ''string''" "\<not> suffix ''_resource'' r"
       "on_get_resources svc (world s) = (rsp, w)"
    using other[OF that] by (cases rsp) (auto simp add: ok200_def)
  have untouched: "backfill_indicator svc x (c, s) =
      (c\<lparr>total_indicators := total_indicators c + 1\<rparr>,
       s\<lparr>world := w, sent := sent s @ [Get_resources],
         console := console s @ [Skipping (ind_name x) r]\<rparr>)"
    if "ind_resources x = [r]" "r \<noteq> ''string''" "\<not> suffix ''_resource'' r"
       "on_get_resources svc (world s) = (rsp, w)" "\<not> fst (should_create_new svc x s)"
    using other[OF that(1-4)] that(5)
    by (simp add: backfill_indicator_def Let_def split: if_splits)
  from empty placeholder decided untouched show ?thesis
    by blast
qed

theorem needs_backfill_decision_witness:
  "should_create_new memory_service (gdp_record\<lparr>ind_resources := []\<rparr>) (start linked_catalog) =
     (True, start linked_catalog)
   \<and> should_create_new memory_service (gdp_record\<lparr>ind_resources := [''string'']\<rparr>)
       (start linked_catalog) = (True, start linked_catalog)
   \<and> fst (should_create_new memory_service gdp_record (start linked_catalog)) = False
   \<and> backfill_indicator memory_service gdp_record (no_counts, start linked_catalog) =
       (no_counts\<lparr>total_indicators := 1\<rparr>,
        \<lparr> world = linked_catalog, sent = [Get_resources],
          console = [Skipping (Some ''GDP'') ''r1''] \<rparr>)"
  using needs_backfill_decision [where svc = memory_service and s = "start linked_catalog"
      and e = "gdp_record\<lparr>ind_resources := []\<rparr>"
      and p = "gdp_record\<lparr>ind_resources := [''string'']\<rparr>" and d = "''string''"
      and x = gdp_record and r = "''r1''" and rsp = "Response 200 (cat_resources linked_catalog)"
      and w = linked_catalog and c = no_counts]
  by (simp add: gdp_record_def memory_service_def mem_get_resources_def linked_catalog_def
      start_def ok200_def no_counts_def suffix_to_prefix)

section \<open>Creating and linking a resource\<close>

text \<open>
  Claim C8. For an indicator that enters backfill, the count of updated indicators goes
  up by one exactly when the resource creation returns a non-empty id and the link
  write that follows succeeds; in every other case it stays as it was. When the
  resource is created and the link write fails, the indicator is counted as processed
  only, the line "Failed to link" is printed, and after the decision exactly two
  requests were sent, one creation and one link write: nothing is retried.
\<close>

theorem updated_iff_created_and_linked:
  "should_create_new svc x s = (True, s1)
   \<and> create_resource_in_service svc (ind_name x) (ind_id x) s1 = (created, s2)
   \<longrightarrow> (updated_indicators (fst (backfill_indicator svc x (c, s))) =
          (if \<exists>rid. created = Some rid \<and> rid \<noteq> []
                \<and> fst (add_resource_to_indicator svc (ind_id x) rid s2)
           then updated_indicators c + 1 else updated_indicators c))
     \<and> (\<forall>rid s3. created = Some rid \<and> rid \<noteq> []
           \<and> add_resource_to_indicator svc (ind_id x) rid s2 = (False, s3)
         \<longrightarrow> backfill_indicator svc x (c, s) =
               (c\<lparr>total_indicators := total_indicators c + 1\<rparr>,
                say (Failed_to_link rid (ind_name x)) s3)
           \<and> sent s3 = sent s1 @ [Post_resource (mk_resource_data (ind_name x) (ind_id x)),
                                   Post_indicator_resource (fmt (ind_id x)) rid])"
proof (intro impI, elim conjE)
  assume enter: "should_create_new svc x s = (True, s1)"
    and create: "create_resource_in_service svc (ind_name x) (ind_id x) s1 = (created, s2)"
  have counted: "updated_indicators (fst (backfill_indicator svc x (c, s))) =
          (if \<exists>rid. created = Some rid \<and> rid \<noteq> []
                \<and> fst (add_resource_to_indicator svc (ind_id x) rid s2)
           then updated_indicators c + 1 else updated_indicators c)"
    using enter create
    by (auto simp add: backfill_indicator_def Let_def split: option.splits prod.splits bool.splits)
  have orphan: "backfill_indicator svc x (c, s) =
               (c\<lparr>total_indicators := total_indicators c + 1\<rparr>,
                say (Failed_to_link rid (ind_name x)) s3)
           \<and> sent s3 = sent s1 @ [Post_resource (mk_resource_data (ind_name x) (ind_id x)),
                                   Post_indicator_resource (fmt (ind_id x)) rid]"
    if "created = Some rid" "rid \<noteq> []"
       "add_resource_to_indicator svc (ind_id x) rid s2 = (False, s3)" for rid s3
    using enter create that create_resource_sent[OF create] add_resource_sent[OF that(3)]
    by (simp add: backfill_indicator_def Let_def)
  from counted orphan show "(updated_indicators (fst (backfill_indicator svc x (c, s))) =
          (if \<exists>rid. created = Some rid \<and> rid \<noteq> []
                \<and> fst (add_resource_to_indicator svc (ind_id x) rid s2)
           then updated_indicators c + 1 else updated_indicators c))
     \<and> (\<forall>rid s3. created = Some rid \<and> rid \<noteq> []
           \<and> add_resource_to_indicator svc (ind_id x) rid s2 = (False, s3)
         \<longrightarrow> backfill_indicator svc x (c, s) =
               (c\<lparr>total_indicators := total_indicators c + 1\<rparr>,
                say (Failed_to_link rid (ind_name x)) s3)
           \<and> sent s3 = sent s1 @ [Post_resource (mk_resource_data (ind_name x) (ind_id x)),
                                   Post_indicator_resource (fmt (ind_id x)) rid])"
    by blast
qed

theorem updated_iff_created_and_linked_witness:
  "backfill_indicator failing_service (gdp_record\<lparr>ind_resources := []\<rparr>)
     (no_counts, start unlinked_catalog) =
     (no_counts\<lparr>total_indicators := 1\<rparr>,
      \<lparr> world = orphaned_catalog,
        sent = [Post_resource (mk_resource_data (Some ''GDP'') (Some ''i1'')),
                Post_indicator_resource ''i1'' ''oid''],
        console = [Failed_to_link ''oid'' (Some ''GDP'')] \<rparr>)"
proof -
  let ?x = "gdp_record\<lparr>ind_resources := []\<rparr>"
  let ?s2 = "\<lparr> world = orphaned_catalog,
               sent = [Post_resource (mk_resource_data (Some ''GDP'') (Some ''i1''))],
               console = [] \<rparr>"
  let ?s3 = "?s2\<lparr>sent := sent ?s2 @ [Post_indicator_resource ''i1'' ''oid'']\<rparr>"
  have enter: "should_create_new failing_service ?x (start unlinked_catalog) =
      (True, start unlinked_catalog)"
    by (simp add: should_create_new_def gdp_record_def)
  have create: "create_resource_in_service failing_service (ind_name ?x) (ind_id ?x)
      (start unlinked_catalog) = (Some ''oid'', ?s2)"
    by (simp add: create_resource_in_service_def send_def failing_service_def memory_service_def
        mem_post_resource_def gdp_record_def start_def orphaned_catalog_def unlinked_catalog_def
        new_id_def Let_def)
  have link: "add_resource_to_indicator failing_service (ind_id ?x) ''oid'' ?s2 = (False, ?s3)"
    by (simp add: add_resource_to_indicator_def send_def failing_service_def gdp_record_def fmt_def)
  from updated_iff_created_and_linked [where svc = failing_service and x = ?x
      and s = "start unlinked_catalog" and ?s1.0 = "start unlinked_catalog"
      and created = "Some ''oid''" and ?s2.0 = ?s2 and c = no_counts] enter create link
  show ?thesis
    by (simp add: say_def no_counts_def gdp_record_def)
qed

section \<open>The counters of the backfill pass\<close>

lemma backfill_indicator_counts:
  "backfill_indicator svc x (c, s) = (c', s') \<Longrightarrow>
     \<exists>out. console s' = console s @ out
       \<and> updated_indicators c' = updated_indicators c + length (filter is_added out)
       \<and> total_resources c' = total_resources c + length (filter is_added out)"
  unfolding backfill_indicator_def Let_def
  by (auto simp add: say_def should_create_new_def Let_def
      split: if_splits prod.splits option.splits bool.splits response.splits
      dest!: send_sent create_resource_sent add_resource_sent)

lemma backfill_fold_counts:
  "fold (backfill_indicator svc) xs (c, s) = (c', s') \<Longrightarrow>
     \<exists>out. console s' = console s @ out
       \<and> updated_indicators c' = updated_indicators c + length (filter is_added out)
       \<and> total_resources c' = total_resources c + length (filter is_added out)"
proof (induction xs arbitrary: c s)
  case Nil
  then show ?case by simp
next
  case (Cons x xs)
  obtain c1 s1 where st: "backfill_indicator svc x (c, s) = (c1, s1)"
    by (cases "backfill_indicator svc x (c, s)")
  with Cons.prems have rest: "fold (backfill_indicator svc) xs (c1, s1) = (c', s')"
    by simp
  from backfill_indicator_counts[OF st] obtain o1 where o1: "console s1 = console s @ o1"
    "updated_indicators c1 = updated_indicators c + length (filter is_added o1)"
    "total_resources c1 = total_resources c + length (filter is_added o1)"
    by blast
  from Cons.IH[OF rest] obtain o2 where o2: "console s' = console s1 @ o2"
    "updated_indicators c' = updated_indicators c1 + length (filter is_added o2)"
    "total_resources c' = total_resources c1 + length (filter is_added o2)"
    by blast
  from o1 o2 show ?case
    by (intro exI[of _ "o1 @ o2"]) simp
qed


lemma fetch_pages_quiet:
  assumes "fetch_pages svc skip acc s = Some y"
  shows "console (snd y) = console s \<and> listings (snd y) = listings s"
proof (rule fetch_pages.raw_induct
    [where P = "\<lambda>svc skip acc s y. console (snd y) = console s \<and> listings (snd y) = listings s",
     OF _ assms])
  fix f :: "'a service \<Rightarrow> nat \<Rightarrow> indicator_record list \<Rightarrow> 'a run \<Rightarrow>
      (indicator_record list \<times> 'a run) option"
  fix svc skip acc s y
  assume IH: "\<And>svc skip acc s y. f svc skip acc s = Some y \<Longrightarrow>
      console (snd y) = console s \<and> listings (snd y) = listings s"
  assume body: "(case send (Get_indicators (Some skip) 50) (on_get_indicators svc (Some skip) 50) s of
        (Response code indicators, s') \<Rightarrow>
          if code = 200 then
            (if indicators = [] then Some (acc, s')
             else f svc (skip + 50) (acc @ indicators) s')
          else Some (acc, s')
      | (RequestException, s') \<Rightarrow> Some (acc, s')) = Some y"
  obtain r s1 where snd1:
    "send (Get_indicators (Some skip) 50) (on_get_indicators svc (Some skip) 50) s = (r, s1)"
    by (cases "send (Get_indicators (Some skip) 50) (on_get_indicators svc (Some skip) 50) s")
  from send_sent[OF snd1] have s1: "listings s1 = listings s" "console s1 = console s"
    by (simp_all add: listings_def)
  show "console (snd y) = console s \<and> listings (snd y) = listings s"
  proof (cases r)
    case RequestException
    with body snd1 s1 show ?thesis by auto
  next
    case (Response code inds)
    show ?thesis
    proof (cases "code = 200 \<and> inds \<noteq> []")
      case True
      with body snd1 Response have "f svc (skip + 50) (acc @ inds) s1 = Some y" by simp
      from IH[OF this] s1 show ?thesis by simp
    next
      case False
      with body snd1 Response s1 show ?thesis by (auto split: if_splits)
    qed
  qed
qed

lemma get_all_quiet:
  "get_all_indicators_with_pagination svc s = Some (inds, s1) \<Longrightarrow>
     console s1 = console s \<and> listings s1 = listings s"
  using fetch_pages_quiet[of svc 0 "[]" s "(inds, s1)"]
  by (simp add: get_all_indicators_with_pagination_def)

lemma failing_fetch:
  "cat_indicators (world s) \<noteq> [] \<Longrightarrow>
     get_all_indicators_with_pagination failing_service s =
       Some (take 50 (cat_indicators (world s)),
             s\<lparr>sent := sent s @ [Get_indicators (Some 0) 50, Get_indicators (Some 50) 50]\<rparr>)"
  unfolding get_all_indicators_with_pagination_def
  by (subst fetch_pages.simps,
      simp add: send_def failing_service_def mem_get_indicators_def,
      subst fetch_pages.simps,
      simp add: send_def failing_service_def mem_get_indicators_def)

text \<open>
  Claim C9. In the summary of every backfill pass the count of updated indicators
  equals the count of resources created, and both equal the number of "Added" lines
  the pass printed: the two counters go up together, after a successful link write
  only, so a resource that was created and not linked is in neither.
\<close>

theorem updated_equals_resources_created:
  "add_resources_to_all_indicators svc s = Some ((b, Some c), s') \<longrightarrow>
     updated_indicators c = total_resources c
     \<and> total_resources c = length (filter is_added (drop (length (console s)) (console s')))"
proof
  assume run: "add_resources_to_all_indicators svc s = Some ((b, Some c), s')"
  then obtain inds s1 where fetched: "get_all_indicators_with_pagination svc s = Some (inds, s1)"
    and loop: "fold (backfill_indicator svc) inds (no_counts, s1) = (c, s')"
    by (auto simp add: add_resources_to_all_indicators_def
        split: option.splits prod.splits if_splits)
  from get_all_quiet[OF fetched] have same: "console s1 = console s"
    by simp
  from backfill_fold_counts[OF loop] obtain out where out: "console s' = console s1 @ out"
    "updated_indicators c = updated_indicators no_counts + length (filter is_added out)"
    "total_resources c = total_resources no_counts + length (filter is_added out)"
    by blast
  from out same show "updated_indicators c = total_resources c
     \<and> total_resources c = length (filter is_added (drop (length (console s)) (console s')))"
    by (simp add: no_counts_def)
qed

theorem updated_equals_resources_created_witness:
  "add_resources_to_all_indicators failing_service (start unlinked_catalog) =
     Some ((False, Some \<lparr> total_indicators = 1, updated_indicators = 0, total_resources = 0 \<rparr>),
           \<lparr> world = orphaned_catalog,
             sent = [Get_indicators (Some 0) 50, Get_indicators (Some 50) 50,
                     Post_resource (mk_resource_data (Some ''GDP'') (Some ''i1'')),
                     Post_indicator_resource ''i1'' ''oid''],
             console = [Failed_to_link ''oid'' (Some ''GDP'')] \<rparr>)
   \<and> (0::nat) = length (filter is_added [Failed_to_link ''oid'' (Some ''GDP'')])"
proof -
  have fetched: "get_all_indicators_with_pagination failing_service (start unlinked_catalog) =
      Some (cat_indicators unlinked_catalog,
            \<lparr> world = unlinked_catalog,
              sent = [Get_indicators (Some 0) 50, Get_indicators (Some 50) 50], console = [] \<rparr>)"
    by (subst failing_fetch) (simp_all add: start_def unlinked_catalog_def)
  have run: "add_resources_to_all_indicators failing_service (start unlinked_catalog) =
     Some ((False, Some \<lparr> total_indicators = 1, updated_indicators = 0, total_resources = 0 \<rparr>),
           \<lparr> world = orphaned_catalog,
             sent = [Get_indicators (Some 0) 50, Get_indicators (Some 50) 50,
                     Post_resource (mk_resource_data (Some ''GDP'') (Some ''i1'')),
                     Post_indicator_resource ''i1'' ''oid''],
             console = [Failed_to_link ''oid'' (Some ''GDP'')] \<rparr>)"
    unfolding add_resources_to_all_indicators_def fetched
    by (simp add: unlinked_catalog_def orphaned_catalog_def backfill_indicator_def
        should_create_new_def create_resource_in_service_def add_resource_to_indicator_def
        send_def say_def failing_service_def memory_service_def mem_post_resource_def
        new_id_def no_counts_def fmt_def Let_def)
  from updated_equals_resources_created [where svc = failing_service
      and s = "start unlinked_catalog" and b = False
      and c = "\<lparr> total_indicators = 1, updated_indicators = 0, total_resources = 0 \<rparr>"] run
  show ?thesis
    by (simp add: start_def)
qed

section \<open>Indicators with several resources\<close>




section \<open>Requests for the listing of the resource service\<close>

lemma backfill_indicator_listings:
  "backfill_indicator svc x (c, s) = (c', s') \<Longrightarrow>
     listings s' = listings s + (if needs_listing x then 1 else 0)"
  unfolding backfill_indicator_def Let_def say_def listings_def
  by (auto split: if_splits prod.splits option.splits bool.splits
      dest!: should_create_new_sent create_resource_sent add_resource_sent)

lemma backfill_fold_listings:
  "fold (backfill_indicator svc) xs (c, s) = (c', s') \<Longrightarrow>
     listings s' = listings s + length (filter needs_listing xs)"
proof (induction xs arbitrary: c s)
  case Nil
  then show ?case by simp
next
  case (Cons x xs)
  obtain c1 s1 where st: "backfill_indicator svc x (c, s) = (c1, s1)"
    by (cases "backfill_indicator svc x (c, s)")
  with Cons.prems have "fold (backfill_indicator svc) xs (c1, s1) = (c', s')"
    by simp
  from Cons.IH[OF this] backfill_indicator_listings[OF st] show ?case
    by simp
qed

text \<open>
  Claim C6, as amended. The backfill pass does not keep the listing of the resource
  service: it requests the listing once for every fetched indicator whose resources
  are not empty and are not a single placeholder, so the number of listing requests of
  a pass is the number of such indicators.
\<close>

theorem listing_fetched_per_indicator:
  "get_all_indicators_with_pagination svc s = Some (indicators, s1)
   \<and> add_resources_to_all_indicators svc s = Some (r, s')
   \<longrightarrow> listings s' = listings s + length (filter needs_listing indicators)"
proof (intro impI, elim conjE)
  assume fetched: "get_all_indicators_with_pagination svc s = Some (indicators, s1)"
    and run: "add_resources_to_all_indicators svc s = Some (r, s')"
  from get_all_quiet[OF fetched] have same: "listings s1 = listings s"
    by simp
  show "listings s' = listings s + length (filter needs_listing indicators)"
  proof (cases "indicators = []")
    case True
    with run fetched same show ?thesis
      by (auto simp add: add_resources_to_all_indicators_def)
  next
    case False
    with run fetched obtain c where "fold (backfill_indicator svc) indicators (no_counts, s1) = (c, s')"
      by (auto simp add: add_resources_to_all_indicators_def split: prod.splits)
    from backfill_fold_listings[OF this] same show ?thesis
      by simp
  qed
qed

lemma linked_pass:
  "add_resources_to_all_indicators memory_service (start linked_catalog) =
     Some ((False, Some \<lparr> total_indicators = 2, updated_indicators = 0, total_resources = 0 \<rparr>),
           \<lparr> world = linked_catalog,
             sent = [Get_indicators (Some 0) 50, Get_indicators (Some 50) 50,
                     Get_resources, Get_resources],
             console = [Skipping (Some ''GDP'') ''r1'', Skipping (Some ''CPI'') ''r2''] \<rparr>)"
  unfolding add_resources_to_all_indicators_def mem_fetch_all
  by (simp add: linked_catalog_def start_def page_requests_def upt_rec backfill_indicator_def
      should_create_new_def send_def say_def memory_service_def mem_get_resources_def
      no_counts_def suffix_to_prefix Let_def)

theorem listing_fetched_per_indicator_witness:
  "listings \<lparr> world = linked_catalog,
             sent = [Get_indicators (Some 0) 50, Get_indicators (Some 50) 50,
                     Get_resources, Get_resources],
             console = [Skipping (Some ''GDP'') ''r1'', Skipping (Some ''CPI'') ''r2''] \<rparr> =
     listings (start linked_catalog) + length (filter needs_listing (cat_indicators linked_catalog))
   \<and> length (filter needs_listing (cat_indicators linked_catalog)) = 2"
proof -
  have two: "length (filter needs_listing (cat_indicators linked_catalog)) = 2"
    by (simp add: linked_catalog_def needs_listing_def suffix_to_prefix)
  have fetched: "get_all_indicators_with_pagination memory_service (start linked_catalog) =
      Some (cat_indicators linked_catalog,
            \<lparr> world = linked_catalog,
              sent = [Get_indicators (Some 0) 50, Get_indicators (Some 50) 50], console = [] \<rparr>)"
    by (simp add: mem_fetch_all linked_catalog_def start_def page_requests_def upt_rec)
  from listing_fetched_per_indicator [rule_format, OF conjI, OF fetched linked_pass] two
  show ?thesis
    by simp
qed

text \<open>
  Claim C6 as stated, that the listing is fetched at most once in a pass, fails: with two
  indicators that are each linked to an existing resource, the pass requests the
  listing twice.
\<close>

theorem listing_memoized_counterexample:
  "map_option (listings \<circ> snd)
     (add_resources_to_all_indicators memory_service (start linked_catalog)) = Some 2"
  by (simp add: linked_pass listings_def)

section \<open>The import phases when everything exists\<close>

lemma domain_phase_skips:
  "\<forall>d\<in>set ds. Some (dj_name d) \<in> E \<Longrightarrow> fold (domain_step svc E) ds (m, s) = (m, s)"
  by (induction ds) (simp_all add: domain_step_def)

lemma indicators_skipped:
  "\<forall>i\<in>set xs. L (ij_name i) \<noteq> None \<Longrightarrow>
     fold (indicator_step svc L did sub) xs (c, s) =
       (c\<lparr>processed_indicators := processed_indicators c + length xs,
          skipped_indicators := skipped_indicators c + length xs\<rparr>, s)"
  by (induction xs arbitrary: c) (simp_all add: indicator_step_def Let_def)

lemma subdomains_skipped:
  "\<forall>sub\<in>set subs. \<forall>i\<in>set (sj_indicators sub). L (ij_name i) \<noteq> None \<Longrightarrow>
     fold (subdomain_step svc L did) subs (c, s) =
       (c\<lparr>processed_indicators := processed_indicators c + length (concat (map sj_indicators subs)),
          skipped_indicators := skipped_indicators c + length (concat (map sj_indicators subs))\<rparr>, s)"
  by (induction subs arbitrary: c) (simp_all add: subdomain_step_def indicators_skipped)

lemma indicator_phase_skips:
  "\<forall>d\<in>set ds. truthy (id_of m (dj_name d)) \<longrightarrow>
       (\<forall>sub\<in>set (dj_subdomains d). \<forall>i\<in>set (sj_indicators sub). L (ij_name i) \<noteq> None) \<Longrightarrow>
     \<exists>k. fold (domain_indicators_step svc L m) ds (c, s) =
       (c\<lparr>processed_indicators := processed_indicators c + k,
          skipped_indicators := skipped_indicators c + k\<rparr>, s)"
proof (induction ds arbitrary: c)
  case Nil
  show ?case by (intro exI[of _ 0]) simp
next
  case (Cons d ds)
  show ?case
  proof (cases "truthy (id_of m (dj_name d))")
    case True
    then obtain did where did: "id_of m (dj_name d) = Some did" "did \<noteq> []"
      by (auto simp add: truthy_def split: option.splits)
    let ?n = "length (concat (map sj_indicators (dj_subdomains d)))"
    let ?c = "c\<lparr>processed_indicators := processed_indicators c + ?n,
          skipped_indicators := skipped_indicators c + ?n\<rparr>"
    from Cons.prems True have
      "\<forall>sub\<in>set (dj_subdomains d). \<forall>i\<in>set (sj_indicators sub). L (ij_name i) \<noteq> None"
      by simp
    then have step: "domain_indicators_step svc L m d (c, s) = (?c, s)"
      using did by (simp add: domain_indicators_step_def subdomains_skipped)
    from Cons.prems Cons.IH[of ?c] obtain k where
      "fold (domain_indicators_step svc L m) ds (?c, s) =
         (?c\<lparr>processed_indicators := processed_indicators ?c + k,
             skipped_indicators := skipped_indicators ?c + k\<rparr>, s)"
      by auto
    with step show ?thesis
      by (intro exI[of _ "?n + k"]) (simp add: add.assoc)
  next
    case False
    then have step: "domain_indicators_step svc L m d (c, s) = (c, s)"
      by (auto simp add: domain_indicators_step_def truthy_def split: option.splits)
    from Cons.prems Cons.IH[of c] step show ?thesis
      by auto
  qed
qed

lemma lookup_by_name:
  "(fold add_by_name xs L n \<noteq> None) = (L n \<noteq> None \<or> (n \<noteq> [] \<and> Some n \<in> ind_name ` set xs))"
  by (induction xs arbitrary: L) (auto simp add: add_by_name_def split: option.splits)

lemma note_domain_other:
  "k \<notin> dom_name ` set ys \<Longrightarrow> fold note_domain ys m k = m k"
  by (induction ys arbitrary: m) (auto simp add: note_domain_def)

lemma desired_indicatorsI:
  "d \<in> set ds \<Longrightarrow> sub \<in> set (dj_subdomains d) \<Longrightarrow> i \<in> set (sj_indicators sub) \<Longrightarrow>
     i \<in> set (desired_indicators ds)"
  by (auto simp add: desired_indicators_def)

lemma page_requests_posts: "filter is_post (page_requests k n) = []"
  by (simp add: page_requests_def)

section \<open>The client functions against the model of the services\<close>

lemma mem_handlers:
  "on_get_health memory_service = mem_get_health"
  "on_get_domains memory_service = mem_get_domains"
  "on_post_domain memory_service = mem_post_domain"
  "on_get_indicators memory_service = mem_get_indicators"
  "on_get_domain_indicators memory_service = mem_get_domain_indicators"
  "on_post_indicator memory_service = mem_post_indicator"
  "on_get_resources memory_service = mem_get_resources"
  "on_post_resource memory_service = mem_post_resource"
  "on_post_indicator_resource memory_service = mem_post_indicator_resource"
  by (simp_all add: memory_service_def)

lemma new_id_truthy: "truthy (Some (new_id n))"
  by (simp add: truthy_def new_id_def)

lemma mem_health:
  "check_service_health memory_service s = (True, s\<lparr>sent := sent s @ [Get_health]\<rparr>)"
  by (simp add: check_service_health_def send_def memory_service_def mem_get_health_def)

lemma mem_domains:
  "get_existing_domains memory_service s =
     (cat_domains (world s), s\<lparr>sent := sent s @ [Get_domains]\<rparr>)"
  by (simp add: get_existing_domains_def send_def memory_service_def mem_get_domains_def)

lemma mem_lookup:
  "get_existing_indicators memory_service s =
     Some (fold add_by_name (cat_indicators (world s)) Map.empty,
           s\<lparr>sent := sent s @
                page_requests 0 (Suc ((length (cat_indicators (world s)) + 49) div 50))\<rparr>)"
  by (simp add: get_existing_indicators_def mem_fetch_all)

lemma mem_domain_step:
  "domain_step memory_service E d (m, s) =
     (if Some (dj_name d) \<in> E then (m, s)
      else (m(Some (dj_name d) \<mapsto> Some (new_id (cat_next (world s)))),
            s\<lparr>world := (world s)
                 \<lparr>cat_domains := cat_domains (world s) @
                    [\<lparr> dom_id = Some (new_id (cat_next (world s))),
                       dom_name = Some (dj_name d) \<rparr>],
                  cat_next := Suc (cat_next (world s))\<rparr>,
              sent := sent s @ [Post_domain (mk_domain_data d)]\<rparr>))"
  by (simp add: domain_step_def create_domain_def send_def memory_service_def
      mem_post_domain_def mk_domain_data_def new_id_truthy Let_def)

lemma mem_indicator_step:
  "indicator_step memory_service L did sub i (c, s) =
     (if L (ij_name i) \<noteq> None
      then (c\<lparr>processed_indicators := processed_indicators c + 1,
              skipped_indicators := skipped_indicators c + 1\<rparr>, s)
      else if list_ex (\<lambda>x. ind_name x = Some (ij_name i)) (cat_indicators (world s))
      then (c\<lparr>processed_indicators := processed_indicators c + 1\<rparr>,
            s\<lparr>sent := sent s @ [Post_indicator did sub (mk_indicator_data i sub)]\<rparr>)
      else (c\<lparr>processed_indicators := processed_indicators c + 1,
              created_indicators := created_indicators c + 1\<rparr>,
            s\<lparr>world := (world s)
                 \<lparr>cat_indicators := cat_indicators (world s) @
                    [\<lparr> ind_id = Some (new_id (cat_next (world s))),
                       ind_name = Some (ij_name i), ind_domain = Some did,
                       ind_resources = [] \<rparr>],
                  cat_next := Suc (cat_next (world s))\<rparr>,
              sent := sent s @ [Post_indicator did sub (mk_indicator_data i sub)]\<rparr>))"
  by (simp add: indicator_step_def create_indicator_def send_def memory_service_def
      mem_post_indicator_def mk_indicator_data_def Let_def)

subsection \<open>The domain phase\<close>

lemma mem_domain_phase_kept:
  "fold (domain_step memory_service E) ds (m, s) = (m', s') \<Longrightarrow> k \<in> E \<Longrightarrow> m' k = m k"
  by (induction ds arbitrary: m s) (auto simp add: mem_domain_step split: if_splits)

lemma mem_domain_phase_truthy:
  "fold (domain_step memory_service E) ds (m, s) = (m', s') \<Longrightarrow>
     truthy (id_of m n) \<Longrightarrow> truthy (id_of m' n)"
  by (induction ds arbitrary: m s)
     (auto simp add: mem_domain_step id_of_def new_id_truthy split: if_splits)

lemma mem_domain_phase_ids:
  "fold (domain_step memory_service E) ds (m, s) = (m', s') \<Longrightarrow>
     d \<in> set ds \<Longrightarrow> Some (dj_name d) \<notin> E \<Longrightarrow> truthy (id_of m' (dj_name d))"
proof (induction ds arbitrary: m s)
  case Nil
  then show ?case by simp
next
  case (Cons a ds)
  obtain m1 s1 where st: "domain_step memory_service E a (m, s) = (m1, s1)"
    by (cases "domain_step memory_service E a (m, s)")
  with Cons.prems have rest: "fold (domain_step memory_service E) ds (m1, s1) = (m', s')"
    by simp
  show ?case
  proof (cases "d \<in> set ds")
    case True
    from Cons.IH[OF rest True Cons.prems(3)] show ?thesis .
  next
    case False
    with Cons.prems have "d = a" by simp
    with st Cons.prems(3) have "truthy (id_of m1 (dj_name d))"
      by (auto simp add: mem_domain_step id_of_def new_id_truthy)
    from mem_domain_phase_truthy[OF rest this] show ?thesis .
  qed
qed

lemma mem_domain_phase_domains:
  "fold (domain_step memory_service E) ds (m, s) = (m', s') \<Longrightarrow>
     \<exists>new. cat_domains (world s') = cat_domains (world s) @ new
       \<and> (\<forall>r\<in>set new. dom_name r \<notin> E)
       \<and> (\<forall>d\<in>set ds. Some (dj_name d) \<in> E \<or> Some (dj_name d) \<in> dom_name ` set new)"
proof (induction ds arbitrary: m s)
  case Nil
  then show ?case by simp
next
  case (Cons a ds)
  obtain m1 s1 where st: "domain_step memory_service E a (m, s) = (m1, s1)"
    by (cases "domain_step memory_service E a (m, s)")
  with Cons.prems have rest: "fold (domain_step memory_service E) ds (m1, s1) = (m', s')"
    by simp
  from Cons.IH[OF rest] obtain new where new:
    "cat_domains (world s') = cat_domains (world s1) @ new"
    "\<forall>r\<in>set new. dom_name r \<notin> E"
    "\<forall>d\<in>set ds. Some (dj_name d) \<in> E \<or> Some (dj_name d) \<in> dom_name ` set new"
    by blast
  show ?case
  proof (cases "Some (dj_name a) \<in> E")
    case True
    with st have "s1 = s" by (simp add: mem_domain_step)
    with new True show ?thesis by auto
  next
    case False
    let ?r = "\<lparr> dom_id = Some (new_id (cat_next (world s))), dom_name = Some (dj_name a) \<rparr>"
    from False st have "cat_domains (world s1) = cat_domains (world s) @ [?r]"
      by (auto simp add: mem_domain_step)
    with new False show ?thesis
      by (intro exI[of _ "?r # new"]) auto
  qed
qed

subsection \<open>The indicator phase\<close>

lemma extends_refl: "extends s s"
  by (simp add: extends_def)

lemma extends_trans: "extends a b \<Longrightarrow> extends b c \<Longrightarrow> extends a c"
  by (auto simp add: extends_def)

lemma covered_mono: "covered L a i \<Longrightarrow> extends a b \<Longrightarrow> covered L b i"
  by (auto simp add: covered_def extends_def)

lemma fold_invariant:
  assumes step: "\<And>x c s c' s'. f x (c, s) = (c', s') \<Longrightarrow> extends s s' \<and> Q x s'"
    and mono: "\<And>x a b. Q x a \<Longrightarrow> extends a b \<Longrightarrow> Q x b"
  shows "fold f xs (c, s) = (c', s') \<Longrightarrow> extends s s' \<and> (\<forall>x\<in>set xs. Q x s')"
proof (induction xs arbitrary: c s)
  case Nil
  then show ?case by (simp add: extends_refl)
next
  case (Cons x xs)
  obtain c1 s1 where st: "f x (c, s) = (c1, s1)"
    by (cases "f x (c, s)")
  with Cons.prems have rest: "fold f xs (c1, s1) = (c', s')"
    by simp
  from step[OF st] have one: "extends s s1" "Q x s1"
    by simp_all
  from Cons.IH[OF rest] have more: "extends s1 s'" "\<forall>x\<in>set xs. Q x s'"
    by simp_all
  from one more show ?case
    by (auto intro: extends_trans mono)
qed

lemma mem_indicator_step_covers:
  assumes "indicator_step memory_service L did sub i (c, s) = (c', s')"
  shows "extends s s' \<and> covered L s' i"
proof (cases "L (ij_name i) \<noteq> None")
  case True
  with assms show ?thesis
    by (auto simp add: mem_indicator_step extends_def covered_def)
next
  case False
  show ?thesis
  proof (cases "list_ex (\<lambda>x. ind_name x = Some (ij_name i)) (cat_indicators (world s))")
    case True
    then obtain x where "x \<in> set (cat_indicators (world s))" "ind_name x = Some (ij_name i)"
      by (auto simp add: list_ex_iff)
    then have "Some (ij_name i) \<in> ind_name ` set (cat_indicators (world s))"
      by force
    with assms False True show ?thesis
      by (auto simp add: mem_indicator_step extends_def covered_def)
  next
    case refused: False
    with assms False show ?thesis
      by (auto simp add: mem_indicator_step extends_def covered_def)
  qed
qed

lemma mem_subdomain_step_covers:
  "subdomain_step memory_service L did sub (c, s) = (c', s') \<Longrightarrow>
     extends s s' \<and> (\<forall>i\<in>set (sj_indicators sub). covered L s' i)"
  unfolding subdomain_step_def
  by (rule fold_invariant [where Q = "\<lambda>i s. covered L s i"])
     (auto dest: mem_indicator_step_covers intro: covered_mono)

lemma mem_domain_indicators_step_covers:
  "domain_indicators_step memory_service L m d (c, s) = (c', s') \<Longrightarrow>
     extends s s' \<and>
     (truthy (id_of m (dj_name d)) \<longrightarrow>
        (\<forall>sub\<in>set (dj_subdomains d). \<forall>i\<in>set (sj_indicators sub). covered L s' i))"
proof -
  assume st: "domain_indicators_step memory_service L m d (c, s) = (c', s')"
  show ?thesis
  proof (cases "truthy (id_of m (dj_name d))")
    case True
    then obtain did where did: "id_of m (dj_name d) = Some did" "did \<noteq> []"
      by (auto simp add: truthy_def split: option.splits)
    with st have "fold (subdomain_step memory_service L did) (dj_subdomains d) (c, s) = (c', s')"
      by (simp add: domain_indicators_step_def)
    then have "extends s s' \<and>
        (\<forall>sub\<in>set (dj_subdomains d). \<forall>i\<in>set (sj_indicators sub). covered L s' i)"
      by (rule fold_invariant [where Q = "\<lambda>sub s. \<forall>i\<in>set (sj_indicators sub). covered L s i", rotated 2])
         (auto dest: mem_subdomain_step_covers intro: covered_mono)
    then show ?thesis by simp
  next
    case False
    with st have "s' = s"
      by (auto simp add: domain_indicators_step_def truthy_def split: option.splits)
    with False show ?thesis by (simp add: extends_refl)
  qed
qed

lemma mem_indicator_phase:
  "fold (domain_indicators_step memory_service L m) ds (c, s) = (c', s') \<Longrightarrow>
     extends s s' \<and>
     (\<forall>d\<in>set ds. truthy (id_of m (dj_name d)) \<longrightarrow>
        (\<forall>sub\<in>set (dj_subdomains d). \<forall>i\<in>set (sj_indicators sub). covered L s' i))"
  by (rule fold_invariant [where Q = "\<lambda>d s. truthy (id_of m (dj_name d)) \<longrightarrow>
        (\<forall>sub\<in>set (dj_subdomains d). \<forall>i\<in>set (sj_indicators sub). covered L s i)", rotated 2])
     (auto dest: mem_domain_indicators_step_covers intro: covered_mono)

subsection \<open>The backfill pass and the checks keep domains and names\<close>

lemma link_name: "ind_name (link i r x) = ind_name x"
  by (simp add: link_def)

lemma same_names_refl: "same_names s s"
  by (simp add: same_names_def)

lemma same_names_trans: "same_names a b \<Longrightarrow> same_names b c \<Longrightarrow> same_names a c"
  by (simp add: same_names_def)

lemma same_names_settled: "same_names s s' \<Longrightarrow> settled ds (world s) \<Longrightarrow> settled ds (world s')"
proof -
  assume same: "same_names s s'" and "settled ds (world s)"
  from same have "set (map ind_name (cat_indicators (world s'))) =
      set (map ind_name (cat_indicators (world s)))"
    by (simp only: same_names_def)
  then have "ind_name ` set (cat_indicators (world s')) = ind_name ` set (cat_indicators (world s))"
    by simp
  with same \<open>settled ds (world s)\<close> show ?thesis
    by (simp add: settled_def same_names_def)
qed

lemma mem_backfill_indicator_names:
  "backfill_indicator memory_service x (c, s) = (c', s') \<Longrightarrow> same_names s s'"
  by (auto simp add: backfill_indicator_def should_create_new_def create_resource_in_service_def
      add_resource_to_indicator_def send_def say_def mem_handlers mem_get_resources_def
      mem_post_resource_def mem_post_indicator_resource_def same_names_def link_name Let_def
      split: if_splits)

lemma mem_backfill_fold_names:
  "fold (backfill_indicator memory_service) xs (c, s) = (c', s') \<Longrightarrow> same_names s s'"
proof (induction xs arbitrary: c s)
  case Nil
  then show ?case by (simp add: same_names_refl)
next
  case (Cons x xs)
  obtain c1 s1 where st: "backfill_indicator memory_service x (c, s) = (c1, s1)"
    by (cases "backfill_indicator memory_service x (c, s)")
  with Cons.prems have "fold (backfill_indicator memory_service) xs (c1, s1) = (c', s')"
    by simp
  from Cons.IH[OF this] mem_backfill_indicator_names[OF st] show ?case
    by (rule same_names_trans[rotated])
qed

lemma mem_backfill_pass:
  "\<exists>r s'. add_resources_to_all_indicators memory_service s = Some (r, s') \<and> same_names s s'"
proof -
  let ?s1 = "s\<lparr>sent := sent s @
      page_requests 0 (Suc ((length (cat_indicators (world s)) + 49) div 50))\<rparr>"
  have s1: "same_names s ?s1" by (simp add: same_names_def)
  obtain c s2 where loop:
    "fold (backfill_indicator memory_service) (cat_indicators (world s)) (no_counts, ?s1) = (c, s2)"
    by (cases "fold (backfill_indicator memory_service) (cat_indicators (world s)) (no_counts, ?s1)")
  from mem_backfill_fold_names[OF loop] s1 have "same_names s s2"
    by (rule same_names_trans[rotated])
  with loop s1 show ?thesis
    by (auto simp add: add_resources_to_all_indicators_def mem_fetch_all)
qed

lemma mem_test_api_endpoints:
  "\<exists>s'. test_api_endpoints memory_service s = Some s' \<and> same_names s s'"
  by (simp add: test_api_endpoints_def send_def mem_handlers mem_get_indicators_def
      mem_get_domains_def mem_get_domain_indicators_def mem_fetch_all same_names_def)

subsection \<open>A run settles the document, and a settled document is skipped\<close>

lemma mem_import_settles:
  "\<exists>c s'. import_complete_data memory_service (Domains_data ds) s =
       Some ((0 < created_indicators c, Some c), s') \<and> settled ds (world s')"
proof -
  let ?sD = "s\<lparr>sent := sent s @ [Get_domains]\<rparr>"
  let ?doms = "cat_domains (world s)"
  let ?E = "dom_name ` set ?doms"
  let ?m0 = "fold note_domain ?doms Map.empty"
  obtain m1 sP where dp: "fold (domain_step memory_service ?E) ds (?m0, ?sD) = (m1, sP)"
    by (cases "fold (domain_step memory_service ?E) ds (?m0, ?sD)")
  let ?L = "fold add_by_name (cat_indicators (world sP)) Map.empty"
  let ?sL = "sP\<lparr>sent := sent sP @
      page_requests 0 (Suc ((length (cat_indicators (world sP)) + 49) div 50))\<rparr>"
  obtain c sI where ip:
    "fold (domain_indicators_step memory_service ?L m1) ds (no_imports, ?sL) = (c, sI)"
    by (cases "fold (domain_indicators_step memory_service ?L m1) ds (no_imports, ?sL)")
  have run: "import_complete_data memory_service (Domains_data ds) s =
      Some ((0 < created_indicators c, Some c), sI)"
    by (simp add: import_complete_data_def mem_domains dp mem_lookup ip)
  from mem_domain_phase_domains[OF dp] obtain new where new:
    "cat_domains (world sP) = ?doms @ new" "\<forall>r\<in>set new. dom_name r \<notin> ?E"
    "\<forall>d\<in>set ds. Some (dj_name d) \<in> ?E \<or> Some (dj_name d) \<in> dom_name ` set new"
    by auto
  from mem_indicator_phase[OF ip] have ext: "extends ?sL sI"
    and cov: "\<forall>d\<in>set ds. truthy (id_of m1 (dj_name d)) \<longrightarrow>
        (\<forall>sub\<in>set (dj_subdomains d). \<forall>i\<in>set (sj_indicators sub). covered ?L sI i)"
    by simp_all
  from ext new have doms: "cat_domains (world sI) = ?doms @ new"
    by (simp add: extends_def)
  from ext have names: "ind_name ` set (cat_indicators (world sP)) \<subseteq>
      ind_name ` set (cat_indicators (world sI))"
    by (simp add: extends_def)
  have present: "\<forall>d\<in>set ds. Some (dj_name d) \<in> dom_name ` set (cat_domains (world sI))"
    using new(3) doms by auto
  have examined: "\<forall>sub\<in>set (dj_subdomains d). \<forall>i\<in>set (sj_indicators sub).
        Some (ij_name i) \<in> ind_name ` set (cat_indicators (world sI))"
    if d: "d \<in> set ds"
      and id2: "truthy (id_of (fold note_domain (cat_domains (world sI)) Map.empty) (dj_name d))"
    for d
  proof -
    have id1: "truthy (id_of m1 (dj_name d))"
    proof (cases "Some (dj_name d) \<in> ?E")
      case True
      with new(2) have "Some (dj_name d) \<notin> dom_name ` set new" by auto
      then have "fold note_domain (?doms @ new) Map.empty (Some (dj_name d)) = ?m0 (Some (dj_name d))"
        by (simp add: note_domain_other)
      also have "\<dots> = m1 (Some (dj_name d))"
        using mem_domain_phase_kept[OF dp True] by simp
      finally show ?thesis using id2 doms by (simp add: id_of_def)
    next
      case False
      from mem_domain_phase_ids[OF dp d False] show ?thesis .
    qed
    with cov d have "\<forall>sub\<in>set (dj_subdomains d). \<forall>i\<in>set (sj_indicators sub). covered ?L sI i"
      by simp
    moreover have "Some (ij_name i) \<in> ind_name ` set (cat_indicators (world sI))"
      if "covered ?L sI i" for i
    proof (cases "?L (ij_name i) \<noteq> None")
      case True
      then have "Some (ij_name i) \<in> ind_name ` set (cat_indicators (world sP))"
        by (subst (asm) lookup_by_name) simp
      with names show ?thesis by blast
    next
      case False
      with that show ?thesis by (simp add: covered_def)
    qed
    ultimately show ?thesis by blast
  qed
  from present examined have "settled ds (world sI)"
    by (simp add: settled_def)
  with run show ?thesis by blast
qed

lemma mem_import_settled:
  assumes "settled ds (world s)" and "\<forall>i\<in>set (desired_indicators ds). ij_name i \<noteq> []"
  shows "\<exists>c. import_complete_data memory_service (Domains_data ds) s =
       Some ((False, Some c),
             s\<lparr>sent := sent s @ Get_domains #
                  page_requests 0 (Suc ((length (cat_indicators (world s)) + 49) div 50))\<rparr>)
     \<and> created_indicators c = 0 \<and> skipped_indicators c = processed_indicators c"
proof -
  let ?sD = "s\<lparr>sent := sent s @ [Get_domains]\<rparr>"
  let ?E = "dom_name ` set (cat_domains (world s))"
  let ?m = "fold note_domain (cat_domains (world s)) Map.empty"
  let ?L = "fold add_by_name (cat_indicators (world s)) Map.empty"
  let ?sL = "s\<lparr>sent := sent s @ Get_domains #
      page_requests 0 (Suc ((length (cat_indicators (world s)) + 49) div 50))\<rparr>"
  from assms(1) have dp: "fold (domain_step memory_service ?E) ds (?m, ?sD) = (?m, ?sD)"
    by (intro domain_phase_skips) (simp add: settled_def)
  have known: "?L (ij_name i) \<noteq> None"
    if "d \<in> set ds" "truthy (id_of ?m (dj_name d))" "sub \<in> set (dj_subdomains d)"
      "i \<in> set (sj_indicators sub)" for d sub i
  proof -
    from that assms(2) have "ij_name i \<noteq> []"
      by (blast dest: desired_indicatorsI)
    moreover from that assms(1) have "Some (ij_name i) \<in> ind_name ` set (cat_indicators (world s))"
      unfolding settled_def by blast
    ultimately show ?thesis
      by (subst lookup_by_name) simp
  qed
  then have "\<forall>d\<in>set ds. truthy (id_of ?m (dj_name d)) \<longrightarrow>
       (\<forall>sub\<in>set (dj_subdomains d). \<forall>i\<in>set (sj_indicators sub). ?L (ij_name i) \<noteq> None)"
    by blast
  from indicator_phase_skips[OF this, of memory_service no_imports ?sL] obtain k where
    "fold (domain_indicators_step memory_service ?L ?m) ds (no_imports, ?sL) =
       (no_imports\<lparr>processed_indicators := processed_indicators no_imports + k,
          skipped_indicators := skipped_indicators no_imports + k\<rparr>, ?sL)"
    by blast
  then have ip: "fold (domain_indicators_step memory_service ?L ?m) ds (no_imports, ?sL) =
       (\<lparr> processed_indicators = k, created_indicators = 0, skipped_indicators = k \<rparr>, ?sL)"
    by (simp add: no_imports_def)
  show ?thesis
    by (intro exI[of _ "\<lparr> processed_indicators = k, created_indicators = 0,
          skipped_indicators = k \<rparr>"])
       (simp add: import_complete_data_def mem_domains dp mem_lookup ip)
qed

lemma mem_main_settles:
  "\<exists>c1 s1. main memory_service (Domains_data ds) s = Some (c1, s1) \<and> settled ds (world s1)"
proof -
  let ?sH = "s\<lparr>sent := sent s @ [Get_health]\<rparr>"
  from mem_import_settles[of ds ?sH] obtain c sI where
    imp: "import_complete_data memory_service (Domains_data ds) ?sH =
       Some ((0 < created_indicators c, Some c), sI)" and st: "settled ds (world sI)"
    by blast
  show ?thesis
  proof (cases "0 < created_indicators c")
    case False
    with imp st show ?thesis
      by (simp add: main_def mem_health)
  next
    case True
    from mem_backfill_pass[of sI] obtain r sB where
      bf: "add_resources_to_all_indicators memory_service sI = Some (r, sB)" "same_names sI sB"
      by blast
    from mem_test_api_endpoints[of sB] obtain sT where
      te: "test_api_endpoints memory_service sB = Some sT" "same_names sB sT"
      by blast
    from bf(2) te(2) st have "settled ds (world sT)"
      by (blast intro: same_names_settled)
    with True imp bf(1) te(1) show ?thesis
      by (simp add: main_def mem_health)
  qed
qed

section \<open>Idempotence\<close>

text \<open>
  Against the model of the services, for every desired-state document with
  pairwise-distinct domain names and pairwise-distinct, non-empty indicator names and
  from every state of the services: the first run of the script ends, and a second
  run from the state it leaves creates no domain and no indicator. Its import skips
  what it examines (created 0, skipped equal to processed), it sends no write, it
  leaves the services exactly as the first run left them, and it exits with status 1.
\<close>

lemma named_documents_idempotent:
  assumes "distinct (map dj_name ds)"
    and "distinct (map ij_name (desired_indicators ds))"
    and "\<forall>i\<in>set (desired_indicators ds). ij_name i \<noteq> []"
  shows "\<exists>c1 s1 c s2.
      main memory_service (Domains_data ds) s = Some (c1, s1)
      \<and> import_complete_data memory_service (Domains_data ds)
            (snd (check_service_health memory_service s1)) = Some ((False, Some c), s2)
      \<and> created_indicators c = 0 \<and> skipped_indicators c = processed_indicators c
      \<and> main memory_service (Domains_data ds) s1 = Some (1, s2)
      \<and> world s2 = world s1 \<and> posts s2 = posts s1"
proof -
  from mem_main_settles[of ds s] obtain c1 s1 where
    first: "main memory_service (Domains_data ds) s = Some (c1, s1)" and st: "settled ds (world s1)"
    by blast
  let ?sH = "s1\<lparr>sent := sent s1 @ [Get_health]\<rparr>"
  let ?s2 = "?sH\<lparr>sent := sent ?sH @ Get_domains #
      page_requests 0 (Suc ((length (cat_indicators (world ?sH)) + 49) div 50))\<rparr>"
  from st have "settled ds (world ?sH)" by simp
  from mem_import_settled[OF this assms(3)] obtain c where
    imp: "import_complete_data memory_service (Domains_data ds) ?sH = Some ((False, Some c), ?s2)"
    and c: "created_indicators c = 0" "skipped_indicators c = processed_indicators c"
    by blast
  from imp have second: "main memory_service (Domains_data ds) s1 = Some (1, ?s2)"
    by (simp add: main_def mem_health)
  have "world ?s2 = world s1" "posts ?s2 = posts s1"
    by (simp_all add: posts_def page_requests_posts)
  with first imp c second show ?thesis
    by (simp add: mem_health)
qed

lemma scenario_twice:
  "map_option (fst \<circ> snd)
     (run_twice memory_service (Domains_data [economy]) (start empty_catalog)) = Some 1
   \<and> map_option (world \<circ> snd \<circ> snd)
       (run_twice memory_service (Domains_data [economy]) (start empty_catalog)) =
     map_option (world \<circ> snd \<circ> fst)
       (run_twice memory_service (Domains_data [economy]) (start empty_catalog))
   \<and> map_option (posts \<circ> snd \<circ> snd)
       (run_twice memory_service (Domains_data [economy]) (start empty_catalog)) =
     map_option (posts \<circ> snd \<circ> fst)
       (run_twice memory_service (Domains_data [economy]) (start empty_catalog))
   \<and> map_option (indicator_count \<circ> snd \<circ> snd)
       (run_twice memory_service (Domains_data [economy]) (start empty_catalog)) = Some 1"
proof -
  have h1: "distinct (map dj_name [economy])"
    by simp
  have h2: "distinct (map ij_name (desired_indicators [economy]))"
    by (simp add: desired_indicators_def economy_def)
  have h3: "\<forall>i\<in>set (desired_indicators [economy]). ij_name i \<noteq> []"
    by (simp add: desired_indicators_def economy_def gdp_def)
  have one: "map_option (indicator_count \<circ> snd \<circ> snd)
       (run_twice memory_service (Domains_data [economy]) (start empty_catalog)) = Some 1"
    by code_simp
  from named_documents_idempotent [OF h1 h2 h3, of "start empty_catalog"] obtain c1 s1 s2 where
    "main memory_service (Domains_data [economy]) (start empty_catalog) = Some (c1, s1)"
    "main memory_service (Domains_data [economy]) s1 = Some (1, s2)"
    "world s2 = world s1" "posts s2 = posts s1"
    by blast
  with one show ?thesis
    by (simp add: run_twice_def)
qed

text \<open>
  Claim C7 says that on a second run every desired entity is name-matched in the live
  state and skipped. The code misses an indicator whose name is the empty string.
  Whatever indicators were fetched, also when a record of that name is among them, the
  lookup by name has no entry for the empty name; so for any service the loop body does
  not count such an indicator as skipped and sends the request that creates it. For
  the document with one such indicator and two runs from the empty catalog against the
  model of the services: the names of the document are pairwise distinct, the first run
  creates the indicator, and the import of the second run processes one indicator,
  skips none and sends the creation request again, which the model refuses.
\<close>

theorem nameless_indicator_not_matched:
  "fold add_by_name inds Map.empty [] = None
   \<and> skipped_indicators
         (fst (indicator_step svc (fold add_by_name inds Map.empty) did sub
                 (x\<lparr>ij_name := []\<rparr>) (c, s))) = skipped_indicators c
   \<and> sent (snd (indicator_step svc (fold add_by_name inds Map.empty) did sub
                 (x\<lparr>ij_name := []\<rparr>) (c, s))) =
       sent s @ [Post_indicator did sub (mk_indicator_data (x\<lparr>ij_name := []\<rparr>) sub)]
   \<and> distinct (map dj_name [nameless])
   \<and> distinct (map ij_name (desired_indicators [nameless]))
   \<and> map_option (indicator_count \<circ> snd \<circ> fst)
       (run_twice memory_service (Domains_data [nameless]) (start empty_catalog)) = Some 1
   \<and> map_option (indicator_posts \<circ> snd \<circ> fst)
       (run_twice memory_service (Domains_data [nameless]) (start empty_catalog)) = Some 1
   \<and> second_import memory_service (Domains_data [nameless]) (start empty_catalog) =
       Some (False, Some \<lparr> processed_indicators = 1, created_indicators = 0,
                            skipped_indicators = 0 \<rparr>)
   \<and> map_option (indicator_posts \<circ> snd \<circ> snd)
       (run_twice memory_service (Domains_data [nameless]) (start empty_catalog)) = Some 2"
proof -
  have unmatched: "fold add_by_name inds Map.empty [] = None"
    using lookup_by_name [of inds Map.empty "[]"] by simp
  obtain created s' where post:
    "create_indicator svc (mk_indicator_data (x\<lparr>ij_name := []\<rparr>) sub) did sub s = (created, s')"
    by (cases "create_indicator svc (mk_indicator_data (x\<lparr>ij_name := []\<rparr>) sub) did sub s")
  then have request: "sent s' = sent s @ [Post_indicator did sub (mk_indicator_data (x\<lparr>ij_name := []\<rparr>) sub)]"
    by (auto simp add: create_indicator_def split: prod.splits response.splits dest!: send_sent)
  from unmatched post request have step:
    "skipped_indicators
         (fst (indicator_step svc (fold add_by_name inds Map.empty) did sub
                 (x\<lparr>ij_name := []\<rparr>) (c, s))) = skipped_indicators c"
    "sent (snd (indicator_step svc (fold add_by_name inds Map.empty) did sub
                 (x\<lparr>ij_name := []\<rparr>) (c, s))) =
       sent s @ [Post_indicator did sub (mk_indicator_data (x\<lparr>ij_name := []\<rparr>) sub)]"
    by (cases created; simp add: indicator_step_def Let_def)+
  have names: "distinct (map dj_name [nameless])"
    "distinct (map ij_name (desired_indicators [nameless]))"
    by (simp_all add: desired_indicators_def nameless_def)
  have first: "map_option (indicator_count \<circ> snd \<circ> fst)
       (run_twice memory_service (Domains_data [nameless]) (start empty_catalog)) = Some 1"
    "map_option (indicator_posts \<circ> snd \<circ> fst)
       (run_twice memory_service (Domains_data [nameless]) (start empty_catalog)) = Some 1"
    by code_simp+
  have second: "second_import memory_service (Domains_data [nameless]) (start empty_catalog) =
       Some (False, Some \<lparr> processed_indicators = 1, created_indicators = 0,
                            skipped_indicators = 0 \<rparr>)"
    "map_option (indicator_posts \<circ> snd \<circ> snd)
       (run_twice memory_service (Domains_data [nameless]) (start empty_catalog)) = Some 2"
    by code_simp+
  from unmatched step names first second show ?thesis
    by blast
qed

section \<open>The exit status\<close>

lemma import_result:
  "import_complete_data svc file s = Some ((b, r), s') \<Longrightarrow>
     b = (\<exists>c. r = Some c \<and> 0 < created_indicators c)"
  by (auto simp add: import_complete_data_def split: domains_file.splits prod.splits option.splits)

text \<open>
  Claim C1, as amended. When the health check fails the process exits with status 1.
  When it succeeds and the import returns, the import reports success exactly when it
  created at least one indicator; if it did not, the process exits with status 1
  there, also when every desired domain and indicator exists already and is skipped; if
  it did, and the backfill pass and the endpoint checks return, the process exits with
  status 0. These are the only exit statuses, and status 0 means that the health check
  succeeded and the import created at least one indicator.
\<close>

theorem exit_status:
  "(\<not> fst (check_service_health svc0 s0)
      \<longrightarrow> main svc0 doc0 s0 = Some (1, snd (check_service_health svc0 s0)))
   \<and> (check_service_health svc s = (True, s1)
       \<and> import_complete_data svc doc s1 = Some ((imported, summary), s2)
      \<longrightarrow> imported = (\<exists>c. summary = Some c \<and> 0 < created_indicators c)
        \<and> (\<not> imported \<longrightarrow> main svc doc s = Some (1, s2))
        \<and> (imported \<and> add_resources_to_all_indicators svc s2 = Some (r3, s3)
             \<and> test_api_endpoints svc s3 = Some s4
           \<longrightarrow> main svc doc s = Some (0, s4)))
   \<and> (main svc' doc' s' = Some (code, s'')
      \<longrightarrow> (code = 0 \<or> code = 1)
        \<and> (code = 0 \<longleftrightarrow>
             fst (check_service_health svc' s')
             \<and> (\<exists>c t. import_complete_data svc' doc' (snd (check_service_health svc' s')) =
                         Some ((True, Some c), t)
                       \<and> 0 < created_indicators c)))"
proof -
  have down: "main svc0 doc0 s0 = Some (1, snd (check_service_health svc0 s0))"
    if "\<not> fst (check_service_health svc0 s0)"
    using that by (cases "check_service_health svc0 s0") (simp add: main_def)
  have up: "imported = (\<exists>c. summary = Some c \<and> 0 < created_indicators c)
        \<and> (\<not> imported \<longrightarrow> main svc doc s = Some (1, s2))
        \<and> (imported \<and> add_resources_to_all_indicators svc s2 = Some (r3, s3)
             \<and> test_api_endpoints svc s3 = Some s4
           \<longrightarrow> main svc doc s = Some (0, s4))"
    if health: "check_service_health svc s = (True, s1)"
      and imp: "import_complete_data svc doc s1 = Some ((imported, summary), s2)"
  proof -
    from import_result[OF imp]
    have result: "imported = (\<exists>c. summary = Some c \<and> 0 < created_indicators c)" .
    have no: "\<not> imported \<longrightarrow> main svc doc s = Some (1, s2)"
      using health imp by (simp add: main_def)
    have yes: "imported \<and> add_resources_to_all_indicators svc s2 = Some (r3, s3)
             \<and> test_api_endpoints svc s3 = Some s4
           \<longrightarrow> main svc doc s = Some (0, s4)"
      using health imp by (simp add: main_def)
    from result no yes show ?thesis
      by blast
  qed
  have codes: "(code = 0 \<or> code = 1)
        \<and> (code = 0 \<longleftrightarrow>
             fst (check_service_health svc' s')
             \<and> (\<exists>c t. import_complete_data svc' doc' (snd (check_service_health svc' s')) =
                         Some ((True, Some c), t)
                       \<and> 0 < created_indicators c))"
    if run: "main svc' doc' s' = Some (code, s'')"
  proof (cases "check_service_health svc' s'")
    case (Pair ok t1)
    show ?thesis
    proof (cases ok)
      case False
      with Pair run show ?thesis by (simp add: main_def)
    next
      case True
      with Pair run obtain b r t2 where
        imp: "import_complete_data svc' doc' t1 = Some ((b, r), t2)"
        by (auto simp add: main_def split: option.splits prod.splits)
      from import_result[OF imp] Pair True run imp show ?thesis
        by (auto simp add: main_def split: option.splits prod.splits if_splits)
    qed
  qed
  from down up codes show ?thesis
    by blast
qed

theorem exit_status_witness:
  "map_option fst (main down_service (Domains_data [economy]) (start empty_catalog)) = Some 1
   \<and> map_option fst (main memory_service (Domains_data [economy]) (start empty_catalog)) = Some 0
   \<and> map_option fst (main memory_service (Domains_data [economy]) (start linked_catalog)) = Some 1"
proof -
  let ?file = "Domains_data [economy]"
  have down: "\<not> fst (check_service_health down_service (start empty_catalog))"
    by code_simp
  let ?s1 = "snd (check_service_health memory_service (start empty_catalog))"
  let ?imp = "import_complete_data memory_service ?file ?s1"
  let ?s2 = "snd (the ?imp)"
  let ?bf = "add_resources_to_all_indicators memory_service ?s2"
  let ?s3 = "snd (the ?bf)"
  let ?te = "test_api_endpoints memory_service ?s3"
  have health: "check_service_health memory_service (start empty_catalog) = (True, ?s1)"
    by code_simp
  have imp: "?imp = Some ((True, snd (fst (the ?imp))), ?s2)"
    by code_simp
  have bf: "?bf = Some (fst (the ?bf), ?s3)"
    by code_simp
  have te: "?te = Some (the ?te)"
    by code_simp
  let ?t1 = "snd (check_service_health memory_service (start linked_catalog))"
  let ?again = "import_complete_data memory_service ?file ?t1"
  have health': "check_service_health memory_service (start linked_catalog) = (True, ?t1)"
    by code_simp
  have again: "?again = Some ((False, snd (fst (the ?again))), snd (the ?again))"
    by code_simp
  from exit_status [where ?svc0.0 = down_service and ?s0.0 = "start empty_catalog"
      and ?doc0.0 = ?file] down
  have first: "main down_service ?file (start empty_catalog) =
      Some (1, snd (check_service_health down_service (start empty_catalog)))"
    by blast
  from exit_status [where svc = memory_service and s = "start empty_catalog" and doc = ?file
      and ?s1.0 = ?s1 and imported = True and summary = "snd (fst (the ?imp))" and ?s2.0 = ?s2
      and ?r3.0 = "fst (the ?bf)" and ?s3.0 = ?s3 and ?s4.0 = "the ?te"] health imp bf te
  have second: "main memory_service ?file (start empty_catalog) = Some (0, the ?te)"
    by blast
  from exit_status [where svc = memory_service and s = "start linked_catalog" and doc = ?file
      and ?s1.0 = ?t1 and imported = False and summary = "snd (fst (the ?again))"
      and ?s2.0 = "snd (the ?again)"] health' again
  have third: "main memory_service ?file (start linked_catalog) = Some (1, snd (the ?again))"
    by blast
  from first second third show ?thesis
    by simp
qed

text \<open>
  Claim C1 as stated, that a run in which every desired domain and indicator already
  exists and is skipped exits with status 0, fails: with Economy and GDP in the
  catalog the health check succeeds, the import processes one indicator and skips it,
  no write is sent, and the exit status is 1.
\<close>

theorem exit_status_counterexample:
  "fst (check_service_health memory_service (start linked_catalog)) = True
   \<and> map_option fst
       (import_complete_data memory_service (Domains_data [economy])
          (snd (check_service_health memory_service (start linked_catalog)))) =
     Some (False, Some \<lparr> processed_indicators = 1, created_indicators = 0,
                          skipped_indicators = 1 \<rparr>)
   \<and> map_option (posts \<circ> snd)
       (main memory_service (Domains_data [economy]) (start linked_catalog)) = Some []
   \<and> map_option fst
       (main memory_service (Domains_data [economy]) (start linked_catalog)) = Some 1"
  by code_simp

end
